theory Spec2Isabelle
  imports Main "HOL-Library.Word" "HOL-Library.Code_Target_Nat"
begin

unbundle bit_operations_syntax

section \<open>JavaScript values\<close>

text \<open>
  The documents, queries and patches handled by the store are plain JavaScript values.
  Numbers are modelled as integers (the safe-integer part of the IEEE doubles; \<open>NaN\<close>,
  infinities and fractions are outside the model), strings as lists of characters, a
  \<open>Date\<close> by its time value in milliseconds, an object by its own enumerable properties in
  property order. Functions, symbols and properties inherited from a prototype are not
  modelled: a property read looks at own properties only.
\<close>

datatype jsval =
    Undefined
  | Null
  | Bool bool
  | Num int
  | Str string
  | Date int
  | Arr "jsval list"
  | Obj "(string \<times> jsval) list"

text \<open>
  Every \<open>throw\<close> of the source and every exception of the runtime is a value.
  \<open>TypeError\<close> is the runtime's error for reading a property of \<open>null\<close> or
  \<open>undefined\<close> and for calling a method a value does not have.
  \<open>ValidationError m\<close> is \<open>new Error(errorMessage)\<close> of \<open>validateDocument\<close>.
  \<open>DuplicateKeyError c f v\<close> is the error whose message is
  \<^verbatim>\<open>E11000 duplicate key error collection: c index: f_1 dup key: { f: "v" }\<close>.
  \<open>NoDocumentMatchesQuery\<close> and \<open>NoDocumentMatchesID\<close> are the errors of the delete
  operations, \<open>NoDocumentMatchesTheQuery q\<close> and \<open>NoDocumentMatchesTheID i\<close> those of the
  update operations, whose messages quote the query and the id.
  \<open>AdapterError m\<close> is an error thrown by an adapter, \<open>SyntaxError\<close> the error of
  \<open>JSON.parse\<close>.
  \<open>Unmodelled\<close> marks a behaviour of the runtime that lies outside the value model
  (for instance the comparison of a number with a string that spells a fraction).
\<close>

datatype error =
    TypeError
  | ValidationError string
  | DuplicateKeyError string string jsval
  | NoDocumentMatchesQuery
  | NoDocumentMatchesID
  | NoDocumentMatchesTheQuery jsval
  | NoDocumentMatchesTheID string
  | AdapterError string
  | SyntaxError
  | Unmodelled

definition bindE :: "error + 'a \<Rightarrow> ('a \<Rightarrow> error + 'b) \<Rightarrow> error + 'b" where
  "bindE m f = (case m of Inl e \<Rightarrow> Inl e | Inr x \<Rightarrow> f x)"

subsection \<open>Numbers as text\<close>

definition digit_chars :: string where
  "digit_chars = ''0123456789abcdef''"

fun toString10 :: "nat \<Rightarrow> string" where
  "toString10 n = (if n < 10 then [digit_chars ! n] else toString10 (n div 10) @ [digit_chars ! (n mod 10)])"

fun toString16 :: "nat \<Rightarrow> string" where
  "toString16 n = (if n < 16 then [digit_chars ! n] else toString16 (n div 16) @ [digit_chars ! (n mod 16)])"

declare toString10.simps [simp del] toString16.simps [simp del]

definition is_digit :: "char \<Rightarrow> bool" where
  "is_digit c = (c \<in> set ''0123456789'')"

definition digit_value :: "char \<Rightarrow> nat" where
  "digit_value c = of_char c - of_char CHR ''0''"

definition nat_of_digits :: "string \<Rightarrow> nat" where
  "nat_of_digits s = foldl (\<lambda>n c. 10 * n + digit_value c) 0 s"

text \<open>
  A property key is an array index when it is the canonical decimal spelling of a
  natural number.
\<close>

definition array_index :: "string \<Rightarrow> nat option" where
  "array_index k =
     (if k \<noteq> [] \<and> list_all is_digit k \<and> (k = ''0'' \<or> hd k \<noteq> CHR ''0'')
      then Some (nat_of_digits k) else None)"

subsection \<open>Properties\<close>

definition typeof :: "jsval \<Rightarrow> string" where
  "typeof v = (case v of
      Undefined \<Rightarrow> ''undefined''
    | Null \<Rightarrow> ''object''
    | Bool _ \<Rightarrow> ''boolean''
    | Num _ \<Rightarrow> ''number''
    | Str _ \<Rightarrow> ''string''
    | Date _ \<Rightarrow> ''object''
    | Arr _ \<Rightarrow> ''object''
    | Obj _ \<Rightarrow> ''object'')"

definition isArray :: "jsval \<Rightarrow> bool" where
  "isArray v = (case v of Arr _ \<Rightarrow> True | _ \<Rightarrow> False)"

definition indexed :: "'a list \<Rightarrow> string \<Rightarrow> 'a option" where
  "indexed xs k = (case array_index k of
      Some i \<Rightarrow> if i < length xs then Some (xs ! i) else None
    | None \<Rightarrow> None)"

text \<open>The property read \<open>v[k]\<close>.\<close>

fun getProp :: "jsval \<Rightarrow> string \<Rightarrow> error + jsval" where
  "getProp Undefined k = Inl TypeError"
| "getProp Null k = Inl TypeError"
| "getProp (Obj kvs) k = Inr (case map_of kvs k of Some v \<Rightarrow> v | None \<Rightarrow> Undefined)"
| "getProp (Arr xs) k =
     Inr (if k = ''length'' then Num (int (length xs))
          else case indexed xs k of Some v \<Rightarrow> v | None \<Rightarrow> Undefined)"
| "getProp (Str s) k =
     Inr (if k = ''length'' then Num (int (length s))
          else case indexed s k of Some c \<Rightarrow> Str [c] | None \<Rightarrow> Undefined)"
| "getProp (Bool b) k = Inr Undefined"
| "getProp (Num n) k = Inr Undefined"
| "getProp (Date t) k = Inr Undefined"

text \<open>The same read where it cannot throw.\<close>

definition property :: "jsval \<Rightarrow> string \<Rightarrow> jsval" where
  "property obj key = (case getProp obj key of Inr v \<Rightarrow> v | Inl _ \<Rightarrow> Undefined)"

text \<open>The own enumerable properties of a value, as the spread \<open>{...v}\<close> copies them.\<close>

definition index_keys :: "nat \<Rightarrow> string list" where
  "index_keys n = map toString10 [0..<n]"

fun ownEntries :: "jsval \<Rightarrow> (string \<times> jsval) list" where
  "ownEntries (Obj kvs) = kvs"
| "ownEntries (Arr xs) = zip (index_keys (length xs)) xs"
| "ownEntries (Str s) = zip (index_keys (length s)) (map (\<lambda>c. Str [c]) s)"
| "ownEntries Undefined = []"
| "ownEntries Null = []"
| "ownEntries (Bool b) = []"
| "ownEntries (Num n) = []"
| "ownEntries (Date t) = []"

text \<open>\<open>Object.keys(v)\<close>, which throws on \<open>null\<close> and \<open>undefined\<close>.\<close>

definition Object_keys :: "jsval \<Rightarrow> error + string list" where
  "Object_keys v = (if v = Undefined \<or> v = Null then Inl TypeError else Inr (map fst (ownEntries v)))"

text \<open>
  Defining a property on an object under construction: an existing key keeps its place
  and takes the new value, a new key goes last.
\<close>

fun setProp :: "(string \<times> jsval) list \<Rightarrow> string \<Rightarrow> jsval \<Rightarrow> (string \<times> jsval) list" where
  "setProp [] k v = [(k, v)]"
| "setProp ((k', v') # kvs) k v = (if k' = k then (k, v) # kvs else (k', v') # setProp kvs k v)"

definition spread :: "(string \<times> jsval) list \<Rightarrow> jsval \<Rightarrow> (string \<times> jsval) list" where
  "spread target src = foldl (\<lambda>acc (k, v). setProp acc k v) target (ownEntries src)"

section \<open>Schema\<close>

datatype Type = TString | TNumber | TBoolean | TObject | TArray | TDate

definition Type_name :: "Type \<Rightarrow> string" where
  "Type_name t = (case t of
      TString \<Rightarrow> ''string'' | TNumber \<Rightarrow> ''number'' | TBoolean \<Rightarrow> ''boolean''
    | TObject \<Rightarrow> ''object'' | TArray \<Rightarrow> ''array'' | TDate \<Rightarrow> ''date'')"

text \<open>
  \<open>SchemaConfig\<close> of \<^verbatim>\<open>types/index.ts\<close>; the optional members are options. A schema is
  the list of its fields in enumeration order.
\<close>

datatype SchemaConfig = SchemaConfig
  (type: Type)
  (required: bool)
  (unique: "bool option")
  (items: "Type option")
  (schema: "(string \<times> SchemaConfig) list option")

type_synonym Schema = "(string \<times> SchemaConfig) list"

datatype Status = ERROR | SUCCESS

record ValidationResponse =
  status :: Status
  errorMessage :: string

definition failure :: "string \<Rightarrow> error + ValidationResponse" where
  "failure m = Inr \<lparr>status = ERROR, errorMessage = m\<rparr>"

text \<open>\<open>Schema.extractUniqueFields\<close> and \<open>Schema.getUniqueFields\<close>.\<close>

definition getUniqueFields :: "Schema \<Rightarrow> string list" where
  "getUniqueFields s = map fst (filter (\<lambda>(key, config). unique config = Some True) s)"

lemma bindE_cong [fundef_cong]:
  "m = m' \<Longrightarrow> (\<And>x. m' = Inr x \<Longrightarrow> f x = f' x) \<Longrightarrow> bindE m f = bindE m' f'"
  by (auto simp: bindE_def split: sum.splits)

lemma size_fields_le:
  "size_list (\<lambda>p. size (snd p)) (fs :: Schema) \<le> size_list (size_prod (\<lambda>x. 0) size) fs"
  by (induction fs) auto

text \<open>
  \<open>Schema.validate\<close>. The loop over the fields returns at the first failing field; the
  read \<open>obj[key]\<close> throws when \<open>obj\<close> is \<open>null\<close> or \<open>undefined\<close>.
\<close>

function (sequential) validate :: "Schema \<Rightarrow> jsval \<Rightarrow> error + ValidationResponse" where
  "validate [] obj = Inr \<lparr>status = SUCCESS, errorMessage = ''''\<rparr>"
| "validate ((key, config) # rest) obj =
     bindE (getProp obj key) (\<lambda>value.
       if required config \<and> value = Undefined then
         failure (''Property '' @ key @ '' is required.'')
       else if value \<noteq> Undefined then
         (case type config of
            TArray \<Rightarrow>
              if \<not> isArray value then
                failure (''Property '' @ key @ '' should be an array.'')
              else (case items config of
                  Some t \<Rightarrow>
                    if list_ex (\<lambda>item. typeof item \<noteq> Type_name t) (map snd (ownEntries value)) then
                      failure (''All items in array '' @ key @ '' should be of type '' @ Type_name t @ ''.'')
                    else validate rest obj
                | None \<Rightarrow> validate rest obj)
          | TObject \<Rightarrow>
              if typeof value \<noteq> ''object'' \<or> isArray value then
                failure (''Property '' @ key @ '' should be an object.'')
              else (case schema config of
                  Some nested \<Rightarrow>
                    bindE (validate nested value) (\<lambda>nestedValidation.
                      if status nestedValidation = ERROR then Inr nestedValidation
                      else validate rest obj)
                | None \<Rightarrow> validate rest obj)
          | TDate \<Rightarrow>
              (case value of
                 Date _ \<Rightarrow> validate rest obj
               | _ \<Rightarrow> failure (''Property '' @ key @ '' should be of type '' @ Type_name (type config) @ ''.''))
          | _ \<Rightarrow>
              if typeof value \<noteq> Type_name (type config) then
                failure (''Property '' @ key @ '' should be of type '' @ Type_name (type config) @ ''.'')
              else validate rest obj)
       else validate rest obj)"
  by pat_completeness auto
termination
proof (relation "measure (\<lambda>(s, obj). size_list (\<lambda>p. size (snd p)) s)")
  show "wf (measure (\<lambda>(s, obj). size_list (\<lambda>p. size (snd p)) s))"
    by simp
next
  fix key config rest obj x x2
  assume "schema config = Some x2"
  then have "size_list (\<lambda>p. size (snd p)) x2 < size config"
    using size_fields_le [of x2] by (cases config) simp
  then show "((x2, x), (key, config) # rest, obj) \<in> measure (\<lambda>(s, obj). size_list (\<lambda>p. size (snd p)) s)"
    by simp
qed simp_all

section \<open>Equality and ordering of the language\<close>

text \<open>
  \<open>a === b\<close>. Primitive values are compared by value. An object, an array or a \<open>Date\<close>
  is strictly equal only to itself, the same reference. The values that the engine
  compares come from different sources (the documents from the adapter's
  \<open>deserialize\<close>, the queries, patches and new documents from the caller), which share no
  reference, so \<open>===\<close> of two composite values is \<open>False\<close> here. The one place where the
  engine compares a value with itself is in \<open>updateDocument\<close>, and is modelled there.
  \<open>Set.has\<close> and \<open>Array.includes\<close> use SameValueZero, which differs from \<open>===\<close> on
  \<open>NaN\<close> only.
\<close>

fun strict_equals :: "jsval \<Rightarrow> jsval \<Rightarrow> bool" where
  "strict_equals Undefined Undefined = True"
| "strict_equals Null Null = True"
| "strict_equals (Bool a) (Bool b) = (a = b)"
| "strict_equals (Num a) (Num b) = (a = b)"
| "strict_equals (Str a) (Str b) = (a = b)"
| "strict_equals _ _ = False"

text \<open>
  The relational operators convert their operands: a \<open>Date\<close> to its time value, then, unless
  both are strings, both to numbers (\<open>undefined\<close> to \<open>NaN\<close>, written \<open>None\<close>). Arrays and
  plain objects are converted through their \<open>toString\<close>, and a string that is neither
  empty nor a signed run of digits is converted to a fraction or to \<open>NaN\<close>: both are
  outside the model.
\<close>

definition toPrimitive :: "jsval \<Rightarrow> error + jsval" where
  "toPrimitive v = (case v of
      Date t \<Rightarrow> Inr (Num t)
    | Arr _ \<Rightarrow> Inl Unmodelled
    | Obj _ \<Rightarrow> Inl Unmodelled
    | _ \<Rightarrow> Inr v)"

definition stringToNumber :: "string \<Rightarrow> error + int option" where
  "stringToNumber s =
     (if s = [] then Inr (Some 0)
      else if list_all is_digit s then Inr (Some (int (nat_of_digits s)))
      else if hd s = CHR ''+'' \<and> tl s \<noteq> [] \<and> list_all is_digit (tl s) then Inr (Some (int (nat_of_digits (tl s))))
      else if hd s = CHR ''-'' \<and> tl s \<noteq> [] \<and> list_all is_digit (tl s) then Inr (Some (- int (nat_of_digits (tl s))))
      else Inl Unmodelled)"

definition toNumber :: "jsval \<Rightarrow> error + int option" where
  "toNumber v = (case v of
      Undefined \<Rightarrow> Inr None
    | Null \<Rightarrow> Inr (Some 0)
    | Bool b \<Rightarrow> Inr (Some (if b then 1 else 0))
    | Num n \<Rightarrow> Inr (Some n)
    | Str s \<Rightarrow> stringToNumber s
    | _ \<Rightarrow> Inl Unmodelled)"

definition string_less :: "string \<Rightarrow> string \<Rightarrow> bool" where
  "string_less a b = lexordp (\<lambda>c d. (of_char c :: nat) < of_char d) a b"

text \<open>The abstract comparison \<open>x < y\<close>; \<open>None\<close> is its result "undefined".\<close>

definition isLessThan :: "jsval \<Rightarrow> jsval \<Rightarrow> error + bool option" where
  "isLessThan x y =
     bindE (toPrimitive x) (\<lambda>px.
     bindE (toPrimitive y) (\<lambda>py.
       case (px, py) of
         (Str a, Str b) \<Rightarrow> Inr (Some (string_less a b))
       | _ \<Rightarrow>
           bindE (toNumber px) (\<lambda>nx.
           bindE (toNumber py) (\<lambda>ny.
             case (nx, ny) of
               (Some a, Some b) \<Rightarrow> Inr (Some (a < b))
             | _ \<Rightarrow> Inr None))))"

definition js_lt :: "jsval \<Rightarrow> jsval \<Rightarrow> error + bool" where
  "js_lt a b = bindE (isLessThan a b) (\<lambda>r. Inr (r = Some True))"

definition js_gt :: "jsval \<Rightarrow> jsval \<Rightarrow> error + bool" where
  "js_gt a b = bindE (isLessThan b a) (\<lambda>r. Inr (r = Some True))"

definition js_le :: "jsval \<Rightarrow> jsval \<Rightarrow> error + bool" where
  "js_le a b = bindE (isLessThan b a) (\<lambda>r. Inr (r = Some False))"

definition js_ge :: "jsval \<Rightarrow> jsval \<Rightarrow> error + bool" where
  "js_ge a b = bindE (isLessThan a b) (\<lambda>r. Inr (r = Some False))"

section \<open>Query matching\<close>

text \<open>
  \<open>array.includes(val)\<close>. The operand of \<open>$in\<close> and \<open>$nin\<close> is an array by its declared
  type; on \<open>null\<close>, \<open>undefined\<close> and values without an \<open>includes\<close> method the call throws,
  and on a string it is the substring test of \<open>String.prototype.includes\<close>, which is
  outside the model.
\<close>

definition Array_includes :: "jsval \<Rightarrow> jsval \<Rightarrow> error + bool" where
  "Array_includes array val = (case array of
      Arr xs \<Rightarrow> Inr (list_ex (\<lambda>x. strict_equals x val) xs)
    | Str _ \<Rightarrow> Inl Unmodelled
    | _ \<Rightarrow> Inl TypeError)"

text \<open>\<open>itemValue.some((val) => array.includes(val))\<close>, which stops at the first hit.\<close>

fun some_includes :: "jsval \<Rightarrow> jsval list \<Rightarrow> error + bool" where
  "some_includes array [] = Inr False"
| "some_includes array (val # vals) =
     bindE (Array_includes array val) (\<lambda>hit. if hit then Inr True else some_includes array vals)"

definition isInArray :: "jsval \<Rightarrow> jsval \<Rightarrow> error + bool" where
  "isInArray itemValue array = (case itemValue of
      Arr vals \<Rightarrow> some_includes array vals
    | _ \<Rightarrow> Array_includes array itemValue)"

text \<open>
  \<open>applyQueryOperator\<close>. The nine entries of \<open>checks\<close> are evaluated in order, each a
  pair of the check and its \<open>negate\<close> flag; the result is
  \<open>checks.every(([check, negate]) => !negate || !check)\<close>.
\<close>

definition ordering_check ::
  "(jsval \<Rightarrow> jsval \<Rightarrow> error + bool) \<Rightarrow> jsval \<Rightarrow> jsval \<Rightarrow> error + bool" where
  "ordering_check cmp itemValue operand =
     (if operand \<noteq> Undefined \<and> operand \<noteq> Null
      then bindE (cmp itemValue operand) (\<lambda>r. Inr (\<not> r))
      else Inr False)"

definition in_check :: "jsval \<Rightarrow> jsval \<Rightarrow> error + bool" where
  "in_check itemValue operand =
     (if operand \<noteq> Undefined
      then bindE (isInArray itemValue operand) (\<lambda>r. Inr (\<not> r))
      else Inr False)"

definition nin_check :: "jsval \<Rightarrow> jsval \<Rightarrow> error + bool" where
  "nin_check itemValue operand =
     (if operand \<noteq> Undefined then isInArray itemValue operand else Inr False)"

definition applyQueryOperator :: "jsval \<Rightarrow> jsval \<Rightarrow> error + bool" where
  "applyQueryOperator itemValue queryOperator =
     bindE (getProp queryOperator ''$gt'') (\<lambda>gt.
     bindE (ordering_check js_gt itemValue gt) (\<lambda>c_gt.
     bindE (getProp queryOperator ''$lt'') (\<lambda>lt.
     bindE (ordering_check js_lt itemValue lt) (\<lambda>c_lt.
     bindE (getProp queryOperator ''$gte'') (\<lambda>gte.
     bindE (ordering_check js_ge itemValue gte) (\<lambda>c_gte.
     bindE (getProp queryOperator ''$lte'') (\<lambda>lte.
     bindE (ordering_check js_le itemValue lte) (\<lambda>c_lte.
     bindE (getProp queryOperator ''$eq'') (\<lambda>eq.
     bindE (getProp queryOperator ''$ne'') (\<lambda>ne.
     bindE (getProp queryOperator ''$in'') (\<lambda>in_op.
     bindE (in_check itemValue in_op) (\<lambda>c_in.
     bindE (getProp queryOperator ''$nin'') (\<lambda>nin.
     bindE (nin_check itemValue nin) (\<lambda>c_nin.
     bindE (getProp queryOperator ''where'') (\<lambda>where_op.
       let checks =
         [ (c_gt, True),
           (c_lt, True),
           (c_gte, True),
           (c_lte, True),
           (eq \<noteq> Undefined \<and> \<not> strict_equals itemValue eq, False),
           (ne \<noteq> Undefined \<and> strict_equals itemValue ne, False),
           (c_in, True),
           (c_nin, False),
           (where_op \<noteq> Undefined \<and> \<not> strict_equals itemValue where_op, True) ]
       in Inr (list_all (\<lambda>(check, negate). \<not> negate \<or> \<not> check) checks))))))))))))))))"

definition operator_keys :: "string list" where
  "operator_keys = [''$gt'', ''$lt'', ''$gte'', ''$lte'', ''$eq'', ''$ne'', ''$in'', ''$nin'', ''where'']"

definition isQueryOperator :: "jsval \<Rightarrow> error + bool" where
  "isQueryOperator obj =
     bindE (Object_keys obj) (\<lambda>keys. Inr (list_ex (\<lambda>key. key \<in> set operator_keys) keys))"

text \<open>The weights that decrease along the recursion of \<open>matchesQuery\<close>.\<close>

definition entries_weight :: "(string \<times> jsval) list \<Rightarrow> nat" where
  "entries_weight es = sum_list (map (\<lambda>(k, v). 2 * size v + 2) es)"

definition query_weight :: "jsval \<Rightarrow> nat" where
  "query_weight q = 2 * size q + 1 + (case q of Str s \<Rightarrow> 2 * length s | _ \<Rightarrow> 0)"

lemma entries_weight_zip:
  "length ks = length xs \<Longrightarrow> entries_weight (zip ks xs) = sum_list (map (\<lambda>v. 2 * size v + 2) xs)"
  by (induction ks xs rule: list_induct2) (auto simp: entries_weight_def)

lemma entries_weight_own: "entries_weight (ownEntries q) < query_weight q"
proof (cases q)
  case (Obj kvs)
  have "entries_weight kvs \<le> 2 * size_list (size_prod (\<lambda>x. 0) size) kvs"
    by (induction kvs) (auto simp: entries_weight_def)
  with Obj show ?thesis by (simp add: query_weight_def)
next
  case (Arr xs)
  have "sum_list (map (\<lambda>v. 2 * size v + 2) xs) \<le> 2 * size_list size xs"
    by (induction xs) auto
  with Arr show ?thesis
    by (simp add: query_weight_def entries_weight_zip index_keys_def)
next
  case (Str s)
  have "sum_list (map (\<lambda>v. 2 * size v + 2) (map (\<lambda>c. Str [c]) s)) = 2 * length s"
    by (induction s) auto
  with Str show ?thesis
    by (simp add: query_weight_def entries_weight_zip index_keys_def)
qed (simp_all add: entries_weight_def query_weight_def)

text \<open>
  \<open>matchesQuery\<close>: \<open>Object.keys(query).every(...)\<close> stops at the first key that does not
  match. \<open>matchesEntries\<close> is the loop over the properties of the query.
\<close>

function matchesQuery :: "jsval \<Rightarrow> jsval \<Rightarrow> error + bool"
  and matchesEntries :: "jsval \<Rightarrow> (string \<times> jsval) list \<Rightarrow> error + bool" where
  "matchesQuery item query =
     bindE (Object_keys query) (\<lambda>keys. matchesEntries item (ownEntries query))"
| "matchesEntries item [] = Inr True"
| "matchesEntries item ((key, queryValue) # rest) =
     bindE (getProp item key) (\<lambda>itemValue.
     bindE (isQueryOperator queryValue) (\<lambda>isOp.
     bindE (if isOp then applyQueryOperator itemValue queryValue
            else if typeof queryValue = ''object'' \<and> queryValue \<noteq> Null
              then matchesQuery itemValue queryValue
            else Inr (strict_equals itemValue queryValue)) (\<lambda>matches.
       if matches then matchesEntries item rest else Inr False)))"
  by pat_completeness auto

termination
proof (relation "measure (\<lambda>x. case x of Inl (item, query) \<Rightarrow> query_weight query
                                         | Inr (item, es) \<Rightarrow> entries_weight es)")
  fix item query keys
  show "(Inr (item, ownEntries query), Inl (item, query))
      \<in> measure (\<lambda>x. case x of Inl (item, query) \<Rightarrow> query_weight query
                                | Inr (item, es) \<Rightarrow> entries_weight es)"
    using entries_weight_own [of query] by simp
next
  fix item key queryValue rest itemValue isOp
  assume "typeof queryValue = ''object'' \<and> queryValue \<noteq> Null"
  then have "query_weight queryValue = 2 * size queryValue + 1"
    by (cases queryValue) (simp_all add: query_weight_def typeof_def)
  then show "(Inl (itemValue, queryValue), Inr (item, (key, queryValue) # rest))
      \<in> measure (\<lambda>x. case x of Inl (item, query) \<Rightarrow> query_weight query
                                | Inr (item, es) \<Rightarrow> entries_weight es)"
    by (simp add: entries_weight_def)
qed (simp_all add: entries_weight_def)

section \<open>Collection\<close>

text \<open>
  The adapter is the pair of functions of the \<open>Adapter\<close> interface; both may throw.
  A collection holds its adapter, its path and its schema. What changes between calls
  is the content of the collection's file and the counter of \<open>generateId\<close>: the \<open>World\<close>.
  Every operation takes the world and returns its outcome together with the world it
  leaves, so that a failed call shows what it wrote. Reading and writing the file itself
  are taken to succeed.
\<close>

record Adapter =
  serialize :: "jsval \<Rightarrow> error + string"
  deserialize :: "string \<Rightarrow> error + jsval"

record Collection =
  adapter :: Adapter
  collectionPath :: string
  the_schema :: Schema

record World =
  content :: string
  counter :: nat

text \<open>
  The clock and the random source are inputs. A \<open>Stamp\<close> holds what the creation of one
  document reads from them: \<open>Date.now()\<close> and the digits
  \<open>Math.random().toString(16).substring(2, 12)\<close> in \<open>generateId\<close>, then the two
  \<open>new Date()\<close> of \<open>createNewDoc\<close>.
\<close>

record Stamp =
  idTime :: nat
  randomValue :: string
  createdTime :: int
  updatedTime :: int

definition readCollectionData :: "Collection \<Rightarrow> World \<Rightarrow> error + jsval" where
  "readCollectionData c w = deserialize (adapter c) (content w)"

text \<open>The array methods (\<open>forEach\<close>, \<open>find\<close>, \<open>findIndex\<close>) exist on arrays only.\<close>

definition the_elements :: "jsval \<Rightarrow> jsval list" where
  "the_elements v = (case v of Arr xs \<Rightarrow> xs | _ \<Rightarrow> [])"

definition asArray :: "jsval \<Rightarrow> error + jsval list" where
  "asArray v = (case v of Arr xs \<Rightarrow> Inr xs | _ \<Rightarrow> Inl TypeError)"

fun forEach :: "('a \<Rightarrow> error + unit) \<Rightarrow> 'a list \<Rightarrow> error + unit" where
  "forEach f [] = Inr ()"
| "forEach f (x # xs) = bindE (f x) (\<lambda>_. forEach f xs)"

definition validateDocument :: "Collection \<Rightarrow> jsval \<Rightarrow> error + unit" where
  "validateDocument c doc =
     bindE (validate (the_schema c) doc) (\<lambda>r.
       if status r = ERROR then Inl (ValidationError (errorMessage r)) else Inr ())"

text \<open>\<open>getCollectionName\<close>: \<open>basename(path).split(".vdb")[0]\<close>.\<close>

definition basename :: "string \<Rightarrow> string" where
  "basename p = rev (takeWhile (\<lambda>ch. ch \<noteq> CHR ''/'') (dropWhile (\<lambda>ch. ch = CHR ''/'') (rev p)))"

fun before_separator :: "string \<Rightarrow> string \<Rightarrow> string" where
  "before_separator sep [] = []"
| "before_separator sep (ch # s) =
     (if take (length sep) (ch # s) = sep then [] else ch # before_separator sep s)"

definition getCollectionName :: "Collection \<Rightarrow> string" where
  "getCollectionName c = before_separator ''.vdb'' (basename (collectionPath c))"

subsection \<open>Identifiers and new documents\<close>

definition padStart :: "nat \<Rightarrow> char \<Rightarrow> string \<Rightarrow> string" where
  "padStart n ch s = replicate (n - length s) ch @ s"

definition padEnd :: "nat \<Rightarrow> char \<Rightarrow> string \<Rightarrow> string" where
  "padEnd n ch s = s @ replicate (n - length s) ch"

text \<open>\<open>generateId\<close> returns the identifier and the incremented counter.\<close>

definition generateId :: "Stamp \<Rightarrow> nat \<Rightarrow> string \<times> nat" where
  "generateId st cnt =
     (let timestamp = toString16 (idTime st div 1000);
          cnt' = (cnt + 1) mod 0xffffff;
          counterDigits = padStart 6 CHR ''0'' (toString16 cnt')
      in (padEnd 24 CHR ''0'' (timestamp @ randomValue st @ counterDigits), cnt'))"

text \<open>
  \<open>createNewDoc\<close>: the object literal
  \<^verbatim>\<open>{ _id: this.generateId(), ...doc, createdAt: new Date(), updatedAt: new Date() }\<close>,
  its properties defined from left to right.
\<close>

definition createNewDoc :: "Stamp \<Rightarrow> nat \<Rightarrow> jsval \<Rightarrow> jsval \<times> nat" where
  "createNewDoc st cnt doc =
     (let (newId, cnt') = generateId st cnt
      in (Obj (setProp (setProp (spread [(''_id'', Str newId)] doc)
                 ''createdAt'' (Date (createdTime st)))
                 ''updatedAt'' (Date (updatedTime st))), cnt'))"

text \<open>\<open>docs.map((doc) => this.createNewDoc(doc))\<close>; the i-th document reads the i-th stamp.\<close>

fun createNewDocs :: "(nat \<Rightarrow> Stamp) \<Rightarrow> nat \<Rightarrow> nat \<Rightarrow> jsval list \<Rightarrow> jsval list \<times> nat" where
  "createNewDocs stamps i cnt [] = ([], cnt)"
| "createNewDocs stamps i cnt (doc # docs) =
     (let (newDoc, cnt') = createNewDoc (stamps i) cnt doc;
          (newDocs, cnt'') = createNewDocs stamps (Suc i) cnt' docs
      in (newDoc # newDocs, cnt''))"

subsection \<open>Insertion\<close>

text \<open>
  \<open>populateUniqueFieldValues\<close>: a map from each unique field to the set of the values the
  existing documents hold in it. A set is modelled by the list of its members, the map by
  a function that is the empty set elsewhere.
\<close>

definition addFieldValue ::
  "jsval \<Rightarrow> (string \<Rightarrow> jsval list) \<Rightarrow> string \<Rightarrow> error + (string \<Rightarrow> jsval list)" where
  "addFieldValue item m field =
     bindE (getProp item field) (\<lambda>v.
       if v \<noteq> Undefined then Inr (m(field := m field @ [v])) else Inr m)"

fun addItemValues ::
  "jsval \<Rightarrow> (string \<Rightarrow> jsval list) \<Rightarrow> string list \<Rightarrow> error + (string \<Rightarrow> jsval list)" where
  "addItemValues item m [] = Inr m"
| "addItemValues item m (field # rest) =
     bindE (addFieldValue item m field) (\<lambda>m'. addItemValues item m' rest)"

fun addAllValues ::
  "string list \<Rightarrow> (string \<Rightarrow> jsval list) \<Rightarrow> jsval list \<Rightarrow> error + (string \<Rightarrow> jsval list)" where
  "addAllValues uniqueFields m [] = Inr m"
| "addAllValues uniqueFields m (item # rest) =
     bindE (addItemValues item m uniqueFields) (\<lambda>m'. addAllValues uniqueFields m' rest)"

definition populateUniqueFieldValues ::
  "string list \<Rightarrow> jsval \<Rightarrow> error + (string \<Rightarrow> jsval list)" where
  "populateUniqueFieldValues uniqueFields collection =
     bindE (asArray collection) (\<lambda>existing. addAllValues uniqueFields (\<lambda>field. []) existing)"

text \<open>\<open>set.has(v)\<close>.\<close>

definition has :: "jsval list \<Rightarrow> jsval \<Rightarrow> bool" where
  "has members v = list_ex (\<lambda>m. strict_equals m v) members"

text \<open>The body of the duplicate check of \<open>insertDocuments\<close> for one document and one field.\<close>

definition checkDuplicate ::
  "Collection \<Rightarrow> (string \<Rightarrow> jsval list) \<Rightarrow> jsval \<Rightarrow> string \<Rightarrow> error + unit" where
  "checkDuplicate c uniqueFieldValues doc field =
     bindE (getProp doc field) (\<lambda>v.
       if v \<noteq> Undefined \<and> has (uniqueFieldValues field) v
       then Inl (DuplicateKeyError (getCollectionName c) field v)
       else Inr ())"

text \<open>
  \<open>insertDocuments\<close>, the shared path of \<open>insertOne\<close> and \<open>insertMany\<close>. The write is the
  last statement; the counter has advanced by then, also when \<open>serialize\<close> throws.
\<close>

definition insertDocuments ::
  "Collection \<Rightarrow> (nat \<Rightarrow> Stamp) \<Rightarrow> jsval list \<Rightarrow> World \<Rightarrow> (error + unit) \<times> World" where
  "insertDocuments c stamps docs w =
     (case forEach (validateDocument c) docs of
        Inl e \<Rightarrow> (Inl e, w)
      | Inr _ \<Rightarrow>
     let uniqueFields = getUniqueFields (the_schema c) in
     (case readCollectionData c w of
        Inl e \<Rightarrow> (Inl e, w)
      | Inr collection \<Rightarrow>
     (case populateUniqueFieldValues uniqueFields collection of
        Inl e \<Rightarrow> (Inl e, w)
      | Inr uniqueFieldValues \<Rightarrow>
     (case forEach (\<lambda>doc. forEach (checkDuplicate c uniqueFieldValues doc) uniqueFields) docs of
        Inl e \<Rightarrow> (Inl e, w)
      | Inr _ \<Rightarrow>
     let (newDocs, cnt) = createNewDocs stamps 0 (counter w) docs;
         updatedCollection = Arr (the_elements collection @ newDocs)
     in (case serialize (adapter c) updatedCollection of
        Inl e \<Rightarrow> (Inl e, w\<lparr>counter := cnt\<rparr>)
      | Inr text \<Rightarrow> (Inr (), \<lparr>content = text, counter = cnt\<rparr>))))))"

subsection \<open>Deletion\<close>

definition writeCollectionData :: "Collection \<Rightarrow> jsval \<Rightarrow> World \<Rightarrow> (error + unit) \<times> World" where
  "writeCollectionData c data w =
     (case serialize (adapter c) data of
        Inl e \<Rightarrow> (Inl e, w)
      | Inr text \<Rightarrow> (Inr (), w\<lparr>content := text\<rparr>))"

text \<open>
  \<open>docs.find(p)\<close> and \<open>docs.findIndex(p)\<close> with a predicate that may throw: the first
  element on which \<open>p\<close> holds, with its index.
\<close>

fun find_from :: "(jsval \<Rightarrow> error + bool) \<Rightarrow> nat \<Rightarrow> jsval list \<Rightarrow> error + (nat \<times> jsval) option" where
  "find_from p i [] = Inr None"
| "find_from p i (x # xs) =
     bindE (p x) (\<lambda>hit. if hit then Inr (Some (i, x)) else find_from p (Suc i) xs)"

definition falsy :: "jsval \<Rightarrow> bool" where
  "falsy v = (v = Undefined \<or> v = Null \<or> v = Bool False \<or> v = Num 0 \<or> v = Str [])"

definition is_primitive :: "jsval \<Rightarrow> bool" where
  "is_primitive v = (case v of Date _ \<Rightarrow> False | Arr _ \<Rightarrow> False | Obj _ \<Rightarrow> False | _ \<Rightarrow> True)"

text \<open>
  \<open>docs.filter((item) => item !== docToDelete)\<close>. The elements of the array read from
  the adapter are distinct references, so a composite \<open>docToDelete\<close> is unequal to every
  element but itself, the one at the index where it was found; a primitive one is equal
  to every element of the same value.
\<close>

definition removeDoc :: "jsval list \<Rightarrow> nat \<Rightarrow> jsval \<Rightarrow> jsval list" where
  "removeDoc docs i docToDelete =
     (if is_primitive docToDelete then filter (\<lambda>item. \<not> strict_equals item docToDelete) docs
      else take i docs @ drop (Suc i) docs)"

definition hasId :: "string \<Rightarrow> jsval \<Rightarrow> error + bool" where
  "hasId ident doc = bindE (getProp doc ''_id'') (\<lambda>v. Inr (strict_equals v (Str ident)))"

definition deleteOne :: "Collection \<Rightarrow> jsval \<Rightarrow> World \<Rightarrow> (error + unit) \<times> World" where
  "deleteOne c query w =
     (case bindE (readCollectionData c w) asArray of
        Inl e \<Rightarrow> (Inl e, w)
      | Inr docs \<Rightarrow>
     (case find_from (\<lambda>item. matchesQuery item query) 0 docs of
        Inl e \<Rightarrow> (Inl e, w)
      | Inr None \<Rightarrow> (Inl NoDocumentMatchesQuery, w)
      | Inr (Some (i, docToDelete)) \<Rightarrow>
          if falsy docToDelete then (Inl NoDocumentMatchesQuery, w)
          else writeCollectionData c (Arr (removeDoc docs i docToDelete)) w))"

definition deleteById :: "Collection \<Rightarrow> string \<Rightarrow> World \<Rightarrow> (error + unit) \<times> World" where
  "deleteById c ident w =
     (case bindE (readCollectionData c w) asArray of
        Inl e \<Rightarrow> (Inl e, w)
      | Inr docs \<Rightarrow>
     (case find_from (hasId ident) 0 docs of
        Inl e \<Rightarrow> (Inl e, w)
      | Inr None \<Rightarrow> (Inl NoDocumentMatchesID, w)
      | Inr (Some (i, docToDelete)) \<Rightarrow>
          if falsy docToDelete then (Inl NoDocumentMatchesID, w)
          else writeCollectionData c (Arr (removeDoc docs i docToDelete)) w))"

subsection \<open>Update\<close>

lemma size_nth_less: "i < length xs \<Longrightarrow> size (xs ! i) < Suc (size_list size (xs :: jsval list))"
proof (induction xs arbitrary: i)
  case Nil
  then show ?case by simp
next
  case (Cons x xs)
  then show ?case by (cases i) (simp, fastforce)
qed

lemma size_map_of_less:
  "map_of kvs key = Some v \<Longrightarrow> size v < Suc (size_list (size_prod (\<lambda>x. 0) size) (kvs :: (string \<times> jsval) list))"
proof (induction kvs)
  case Nil
  then show ?case by simp
next
  case (Cons kv kvs)
  then show ?case by (cases kv) (auto split: if_splits)
qed

lemma size_property:
  assumes "typeof obj = ''object''" and "obj \<noteq> Null" and "key \<in> set (map fst (ownEntries obj))"
  shows "size (property obj key) < size obj"
proof (cases obj)
  case (Obj kvs)
  show ?thesis
  proof (cases "map_of kvs key")
    case None
    with Obj show ?thesis by (simp add: property_def)
  next
    case (Some v)
    with Obj size_map_of_less [OF Some] show ?thesis by (simp add: property_def)
  qed
next
  case (Arr xs)
  show ?thesis
  proof (cases "key = ''length''")
    case True
    with Arr show ?thesis by (simp add: property_def)
  next
    case False
    show ?thesis
    proof (cases "indexed xs key")
      case None
      with Arr False show ?thesis by (simp add: property_def)
    next
      case (Some v)
      then obtain i where "i < length xs" "v = xs ! i"
        by (auto simp: indexed_def split: option.splits if_splits)
      with Arr False Some size_nth_less [of i xs] show ?thesis by (simp add: property_def)
    qed
  qed
next
  case Undefined with assms(1) show ?thesis by (simp add: typeof_def)
next
  case Null with assms(2) show ?thesis by simp
next
  case (Bool b) with assms(1) show ?thesis by (simp add: typeof_def)
next
  case (Num n) with assms(1) show ?thesis by (simp add: typeof_def)
next
  case (Str s) with assms(1) show ?thesis by (simp add: typeof_def)
next
  case (Date t) with assms(3) show ?thesis by simp
qed

text \<open>
  \<open>deepEqual\<close>. Its first test, \<open>obj1 === obj2\<close>, also holds when both are the same
  reference; the structural comparison that follows returns \<open>True\<close> on a value and
  itself as well (lemma \<open>deepEqual_same\<close>), so the result does not depend on references.
\<close>

function deepEqual :: "jsval \<Rightarrow> jsval \<Rightarrow> bool" where
  "deepEqual obj1 obj2 =
     (if strict_equals obj1 obj2 then True
      else if typeof obj1 \<noteq> ''object'' \<or> typeof obj2 \<noteq> ''object'' \<or> obj1 = Null \<or> obj2 = Null
        then False
      else
        let keys1 = map fst (ownEntries obj1);
            keys2 = map fst (ownEntries obj2)
        in if length keys1 \<noteq> length keys2 then False
           else list_all (\<lambda>key. key \<in> set keys2 \<and> deepEqual (property obj1 key) (property obj2 key)) keys1)"
  by pat_completeness auto
termination
  by (relation "measure (\<lambda>(obj1, obj2). size obj1)") (auto simp: size_property)

declare deepEqual.simps [simp del]

fun mapE :: "('a \<Rightarrow> error + 'b) \<Rightarrow> 'a list \<Rightarrow> error + 'b list" where
  "mapE f [] = Inr []"
| "mapE f (x # xs) = bindE (f x) (\<lambda>y. bindE (mapE f xs) (\<lambda>ys. Inr (y # ys)))"

text \<open>
  \<open>docs.some((doc, index) => index !== docIndex && doc[field] === updatedDoc[field])\<close>,
  from index \<open>i\<close> on.
\<close>

fun some_other :: "nat \<Rightarrow> string \<Rightarrow> jsval \<Rightarrow> nat \<Rightarrow> jsval list \<Rightarrow> error + bool" where
  "some_other docIndex field v i [] = Inr False"
| "some_other docIndex field v i (doc # docs) =
     (if i \<noteq> docIndex
      then bindE (getProp doc field) (\<lambda>held.
             if strict_equals held v then Inr True else some_other docIndex field v (Suc i) docs)
      else some_other docIndex field v (Suc i) docs)"

text \<open>
  The body of the unique check of \<open>updateDocument\<close> for one field. \<open>ownValues\<close> are the
  members of \<open>uniqueFieldValues\<close>, the values that \<open>docToUpdate\<close> holds in its unique
  fields. \<open>updatedDoc[field]\<close> is the very value of \<open>docToUpdate[field]\<close>, the same
  reference, when the patch does not define the field (\<open>kept\<close>): then
  \<open>uniqueFieldValues.has\<close> holds whatever the value is. Otherwise the value comes from
  the patch (or is the new \<open>updatedAt\<close>) and is compared with the members by \<open>===\<close>.
\<close>

definition checkUpdateDuplicate ::
  "Collection \<Rightarrow> jsval list \<Rightarrow> nat \<Rightarrow> jsval \<Rightarrow> jsval list \<Rightarrow> jsval \<Rightarrow> string \<Rightarrow> error + unit" where
  "checkUpdateDuplicate c docs docIndex update ownValues updatedDoc field =
     bindE (getProp updatedDoc field) (\<lambda>v.
       let kept = (field \<noteq> ''updatedAt'' \<and> field \<notin> set (map fst (ownEntries update)))
       in if v \<noteq> Undefined \<and> \<not> (kept \<or> has ownValues v) then
            bindE (some_other docIndex field v 0 docs) (\<lambda>isDuplicate.
              if isDuplicate then Inl (DuplicateKeyError (getCollectionName c) field v)
              else Inr ())
          else Inr ())"

text \<open>
  \<open>updateDocument\<close>; \<open>now\<close> is the time read by \<open>new Date()\<close>. The callers pass the
  index of an element of \<open>docs\<close>.
\<close>

definition mergedDoc :: "jsval \<Rightarrow> jsval \<Rightarrow> int \<Rightarrow> jsval" where
  "mergedDoc docToUpdate update now =
     Obj (setProp (spread (spread [] docToUpdate) update) ''updatedAt'' (Date now))"

definition updateDocument ::
  "Collection \<Rightarrow> int \<Rightarrow> jsval list \<Rightarrow> nat \<Rightarrow> jsval \<Rightarrow> World \<Rightarrow> (error + unit) \<times> World" where
  "updateDocument c now docs docIndex update w =
     (let docToUpdate = (if docIndex < length docs then docs ! docIndex else Undefined);
          updatedDoc = mergedDoc docToUpdate update now
      in
     (case validateDocument c updatedDoc of
        Inl e \<Rightarrow> (Inl e, w)
      | Inr _ \<Rightarrow>
     let uniqueFields = getUniqueFields (the_schema c) in
     (case mapE (getProp docToUpdate) uniqueFields of
        Inl e \<Rightarrow> (Inl e, w)
      | Inr ownValues \<Rightarrow>
     (case forEach (checkUpdateDuplicate c docs docIndex update ownValues updatedDoc) uniqueFields of
        Inl e \<Rightarrow> (Inl e, w)
      | Inr _ \<Rightarrow>
          if \<not> deepEqual docToUpdate updatedDoc
          then writeCollectionData c (Arr (docs[docIndex := updatedDoc])) w
          else (Inr (), w)))))"


definition updateById ::
  "Collection \<Rightarrow> int \<Rightarrow> string \<Rightarrow> jsval \<Rightarrow> World \<Rightarrow> (error + unit) \<times> World" where
  "updateById c now ident update w =
     (case bindE (readCollectionData c w) asArray of
        Inl e \<Rightarrow> (Inl e, w)
      | Inr docs \<Rightarrow>
     (case find_from (hasId ident) 0 docs of
        Inl e \<Rightarrow> (Inl e, w)
      | Inr None \<Rightarrow> (Inl (NoDocumentMatchesTheID ident), w)
      | Inr (Some (docIndex, doc)) \<Rightarrow> updateDocument c now docs docIndex update w))"

section \<open>The JSON codec of the runtime\<close>

text \<open>
  \<open>JSON.stringify\<close> and \<open>JSON.parse\<close> are built into the runtime. They are modelled
  after the language standard, on the values of the model: a string is the list of the
  bytes of its UTF-8 text, so that writing it to a buffer or a file and reading it back
  changes nothing.
\<close>

definition dquote :: char where
  "dquote = CHR 0x22"

definition backslash :: char where
  "backslash = CHR 0x5C"

subsection \<open>\<open>Date.prototype.toISOString\<close>\<close>

definition pad :: "nat \<Rightarrow> int \<Rightarrow> string" where
  "pad width n = padStart width CHR ''0'' (toString10 (nat n))"

text \<open>The civil date of a day number counted from 1970-01-01: year, month, day.\<close>

definition civil_from_days :: "int \<Rightarrow> int \<times> int \<times> int" where
  "civil_from_days days =
     (let z = days + 719468;
          era = z div 146097;
          doe = z - era * 146097;
          yoe = (doe - doe div 1460 + doe div 36524 - doe div 146096) div 365;
          y = yoe + era * 400;
          doy = doe - (365 * yoe + yoe div 4 - yoe div 100);
          mp = (5 * doy + 2) div 153;
          d = doy - (153 * mp + 2) div 5 + 1;
          m = (if mp < 10 then mp + 3 else mp - 9)
      in (if m \<le> 2 then y + 1 else y, m, d))"

definition year_text :: "int \<Rightarrow> string" where
  "year_text y =
     (if 0 \<le> y \<and> y \<le> 9999 then pad 4 y
      else if y < 0 then ''-'' @ pad 6 (- y)
      else ''+'' @ pad 6 y)"

definition toISOString :: "int \<Rightarrow> string" where
  "toISOString t =
     (let days = t div 86400000;
          ms = t mod 86400000;
          (y, m, d) = civil_from_days days
      in year_text y @ ''-'' @ pad 2 m @ ''-'' @ pad 2 d @ ''T''
         @ pad 2 (ms div 3600000) @ '':'' @ pad 2 (ms div 60000 mod 60) @ '':''
         @ pad 2 (ms div 1000 mod 60) @ ''.'' @ pad 3 (ms mod 1000) @ ''Z'')"

subsection \<open>\<open>JSON.stringify\<close>\<close>

definition hex2 :: "nat \<Rightarrow> string" where
  "hex2 n = [digit_chars ! (n div 16), digit_chars ! (n mod 16)]"

text \<open>The text of one character inside a string literal.\<close>

definition escape_char :: "char \<Rightarrow> string" where
  "escape_char ch =
     (if ch = dquote then [backslash, dquote]
      else if ch = backslash then [backslash, backslash]
      else if ch = CHR 0x08 then [backslash, CHR ''b'']
      else if ch = CHR 0x0C then [backslash, CHR ''f'']
      else if ch = CHR 0x0A then [backslash, CHR ''n'']
      else if ch = CHR 0x0D then [backslash, CHR ''r'']
      else if ch = CHR 0x09 then [backslash, CHR ''t'']
      else if (of_char ch :: nat) < 0x20 then [backslash, CHR ''u'', CHR ''0'', CHR ''0''] @ hex2 (of_char ch)
      else [ch])"

definition quoteJSONString :: "string \<Rightarrow> string" where
  "quoteJSONString s = dquote # concat (map escape_char s) @ [dquote]"

definition number_text :: "int \<Rightarrow> string" where
  "number_text n = (if n < 0 then CHR ''-'' # toString10 (nat (- n)) else toString10 (nat n))"

fun join :: "string \<Rightarrow> string list \<Rightarrow> string" where
  "join sep [] = []"
| "join sep [x] = x"
| "join sep (x # y # ys) = x @ sep @ join sep (y # ys)"

text \<open>
  The text of a value, or \<open>None\<close> where the standard yields \<open>undefined\<close>: a property
  whose value is \<open>undefined\<close> is left out of its object, an \<open>undefined\<close> element of an
  array is written \<open>null\<close>, a \<open>Date\<close> is written as the string of its \<open>toJSON\<close>.
\<close>

fun serializeJSONProperty :: "jsval \<Rightarrow> string option" where
  "serializeJSONProperty Undefined = None"
| "serializeJSONProperty Null = Some ''null''"
| "serializeJSONProperty (Bool b) = Some (if b then ''true'' else ''false'')"
| "serializeJSONProperty (Num n) = Some (number_text n)"
| "serializeJSONProperty (Str s) = Some (quoteJSONString s)"
| "serializeJSONProperty (Date t) = Some (quoteJSONString (toISOString t))"
| "serializeJSONProperty (Arr xs) =
     Some (''['' @ join '','' (map (\<lambda>x. case serializeJSONProperty x of
                                          None \<Rightarrow> ''null'' | Some text \<Rightarrow> text) xs) @ '']'')"
| "serializeJSONProperty (Obj kvs) =
     Some (''{'' @ join '','' (concat (map (\<lambda>(k, v). case serializeJSONProperty v of
                                          None \<Rightarrow> []
                                        | Some text \<Rightarrow> [quoteJSONString k @ '':'' @ text]) kvs)) @ ''}'')"

definition JSON_stringify :: "jsval \<Rightarrow> string option" where
  "JSON_stringify v = serializeJSONProperty v"

subsection \<open>\<open>JSON.parse\<close>\<close>

definition is_ws :: "char \<Rightarrow> bool" where
  "is_ws ch = (ch = CHR '' '' \<or> ch = CHR 0x09 \<or> ch = CHR 0x0A \<or> ch = CHR 0x0D)"

definition skip_ws :: "string \<Rightarrow> string" where
  "skip_ws s = dropWhile is_ws s"

definition hex_value :: "char \<Rightarrow> nat option" where
  "hex_value ch =
     (let n = (of_char ch :: nat) in
      if 48 \<le> n \<and> n \<le> 57 then Some (n - 48)
      else if 97 \<le> n \<and> n \<le> 102 then Some (n - 87)
      else if 65 \<le> n \<and> n \<le> 70 then Some (n - 55)
      else None)"

definition hex4 :: "string \<Rightarrow> nat option" where
  "hex4 s = (case map hex_value (take 4 s) of
      [Some a, Some b, Some c, Some d] \<Rightarrow> Some (((a * 16 + b) * 16 + c) * 16 + d)
    | _ \<Rightarrow> None)"

definition unescape :: "char \<Rightarrow> char option" where
  "unescape ch =
     (if ch = dquote then Some dquote
      else if ch = backslash then Some backslash
      else if ch = CHR ''/'' then Some CHR ''/''
      else if ch = CHR ''b'' then Some (CHR 0x08)
      else if ch = CHR ''f'' then Some (CHR 0x0C)
      else if ch = CHR ''n'' then Some (CHR 0x0A)
      else if ch = CHR ''r'' then Some (CHR 0x0D)
      else if ch = CHR ''t'' then Some (CHR 0x09)
      else None)"

text \<open>
  The characters of a string literal after its opening quote, with the rest of the text
  after the closing quote. An escape \<^verbatim>\<open>\uXXXX\<close> of a character outside ASCII is
  outside the byte model.
\<close>

fun parse_chars :: "string \<Rightarrow> error + (string \<times> string)" where
  "parse_chars [] = Inl SyntaxError"
| "parse_chars (ch # s) =
     (if ch = dquote then Inr ([], s)
      else if ch = backslash then
        (case s of
           [] \<Rightarrow> Inl SyntaxError
         | e # s' \<Rightarrow>
             if e = CHR ''u'' then
               (case hex4 s' of
                  None \<Rightarrow> Inl SyntaxError
                | Some n \<Rightarrow>
                    if n < 128
                    then bindE (parse_chars (drop 4 s')) (\<lambda>(str, rest). Inr (char_of n # str, rest))
                    else Inl Unmodelled)
             else (case unescape e of
                  None \<Rightarrow> Inl SyntaxError
                | Some d \<Rightarrow> bindE (parse_chars s') (\<lambda>(str, rest). Inr (d # str, rest))))
      else if (of_char ch :: nat) < 0x20 then Inl SyntaxError
      else bindE (parse_chars s) (\<lambda>(str, rest). Inr (ch # str, rest)))"

text \<open>
  A number literal. A fraction or an exponent makes a number that is not an integer
  literal: outside the model.
\<close>

definition parse_number :: "string \<Rightarrow> error + (int \<times> string)" where
  "parse_number s =
     (let negative = (s \<noteq> [] \<and> hd s = CHR ''-'');
          s1 = (if negative then tl s else s);
          digits = takeWhile is_digit s1;
          rest = dropWhile is_digit s1
      in if digits = [] then Inl SyntaxError
         else if 1 < length digits \<and> hd digits = CHR ''0'' then Inl SyntaxError
         else if rest \<noteq> [] \<and> hd rest \<in> set ''.eE'' then Inl Unmodelled
         else Inr (if negative then - int (nat_of_digits digits) else int (nat_of_digits digits), rest))"

definition parse_literal :: "string \<Rightarrow> error + (jsval \<times> string)" where
  "parse_literal s =
     (if take 4 s = ''true'' then Inr (Bool True, drop 4 s)
      else if take 5 s = ''false'' then Inr (Bool False, drop 5 s)
      else if take 4 s = ''null'' then Inr (Null, drop 4 s)
      else bindE (parse_number s) (\<lambda>(n, rest). Inr (Num n, rest)))"

lemma parse_chars_shorter: "parse_chars s = Inr (str, rest) \<Longrightarrow> length rest < length s"
proof (induction s arbitrary: str rest rule: parse_chars.induct)
  case 1
  then show ?case by simp
next
  case (2 ch s)
  show ?case
  proof (cases "ch = dquote")
    case True
    with "2.prems" show ?thesis by simp
  next
    case notq: False
    show ?thesis
    proof (cases "ch = backslash")
      case False
      with notq "2.prems" obtain str' where "parse_chars s = Inr (str', rest)"
        by (auto simp: bindE_def split: if_splits sum.splits)
      with "2.IH"(3) [OF notq False] False notq "2.prems" show ?thesis
        by (fastforce simp: bindE_def split: if_splits sum.splits)
    next
      case True
      then obtain e s' where s: "s = e # s'"
        using notq "2.prems" by (cases s) auto
      show ?thesis
      proof (cases "e = CHR ''u''")
        case u: True
        with notq True s "2.prems" obtain n str' where n: "hex4 s' = Some n" "n < 128"
          and r: "parse_chars (drop 4 s') = Inr (str', rest)"
          by (auto simp: bindE_def split: if_splits sum.splits option.splits)
        from "2.IH"(1) [OF notq True s u n(1) n(2) r] show ?thesis
          using s by simp
      next
        case False
        with notq True s "2.prems" obtain d str' where d: "unescape e = Some d"
          and r: "parse_chars s' = Inr (str', rest)"
          by (auto simp: bindE_def split: if_splits sum.splits option.splits)
        from "2.IH"(2) [OF notq True s False d r] show ?thesis
          using s by simp
      qed
    qed
  qed
qed

lemma skip_ws_length: "length (skip_ws s) \<le> length s"
  by (simp add: skip_ws_def length_dropWhile_le)

text \<open>
  The recursive descent over values, the elements of an array after its opening bracket
  and the members of an object after its opening brace. A value that has been read has
  consumed text: the tests on the lengths always hold, and say so for the recursion.
\<close>

function parse_value :: "string \<Rightarrow> error + (jsval \<times> string)"
  and parse_elements :: "string \<Rightarrow> error + (jsval list \<times> string)"
  and parse_members :: "(string \<times> jsval) list \<Rightarrow> string \<Rightarrow> error + (jsval \<times> string)" where
  "parse_value s =
     (case skip_ws s of
        [] \<Rightarrow> Inl SyntaxError
      | ch # t \<Rightarrow>
          if ch = CHR ''['' then
            (case skip_ws t of
               [] \<Rightarrow> Inl SyntaxError
             | ch' # t' \<Rightarrow>
                 if ch' = CHR '']'' then Inr (Arr [], t')
                 else bindE (parse_elements t) (\<lambda>(vs, rest). Inr (Arr vs, rest)))
          else if ch = CHR ''{'' then
            (case skip_ws t of
               [] \<Rightarrow> Inl SyntaxError
             | ch' # t' \<Rightarrow>
                 if ch' = CHR ''}'' then Inr (Obj [], t')
                 else parse_members [] t)
          else if ch = dquote then bindE (parse_chars t) (\<lambda>(str, rest). Inr (Str str, rest))
          else parse_literal (ch # t))"
| "parse_elements s =
     bindE (parse_value s) (\<lambda>(v, rest).
       if length rest < length s then
         (case skip_ws rest of
            [] \<Rightarrow> Inl SyntaxError
          | ch # r \<Rightarrow>
              if ch = CHR '','' then bindE (parse_elements r) (\<lambda>(vs, rest'). Inr (v # vs, rest'))
              else if ch = CHR '']'' then Inr ([v], r)
              else Inl SyntaxError)
       else Inl SyntaxError)"
| "parse_members acc s =
     (case skip_ws s of
        [] \<Rightarrow> Inl SyntaxError
      | ch # t \<Rightarrow>
          if ch = dquote then
            bindE (parse_chars t) (\<lambda>(key, r1).
              case skip_ws r1 of
                [] \<Rightarrow> Inl SyntaxError
              | ch' # r2 \<Rightarrow>
                  if ch' = CHR '':'' \<and> length r2 < length s then
                    bindE (parse_value r2) (\<lambda>(v, rest).
                      if length rest < length r2 then
                        (case skip_ws rest of
                           [] \<Rightarrow> Inl SyntaxError
                         | ch'' # r \<Rightarrow>
                             if ch'' = CHR '','' then parse_members (setProp acc key v) r
                             else if ch'' = CHR ''}'' then Inr (Obj (setProp acc key v), r)
                             else Inl SyntaxError)
                      else Inl SyntaxError)
                  else Inl SyntaxError)
          else Inl SyntaxError)"
  by pat_completeness auto
termination
proof (relation "measure (\<lambda>x. case x of
                   Inl s \<Rightarrow> 2 * length s + 1
                 | Inr (Inl s) \<Rightarrow> 2 * length s + 2
                 | Inr (Inr (acc, s)) \<Rightarrow> 2 * length s + 2)", goal_cases)
  case 1
  then show ?case by simp
next
  case (2 s ch t ch' t')
  then show ?case using skip_ws_length [of s] by simp
next
  case (3 s ch t ch' t')
  then show ?case using skip_ws_length [of s] by simp
next
  case (4 s)
  then show ?case by simp
next
  case (5 s p v rest ch r)
  then show ?case using skip_ws_length [of rest] by simp
next
  case (6 acc s ch t p key r1 ch' r2)
  then show ?case by simp
next
  case (7 acc s ch t p key r1 ch' r2 q v rest ch'' r)
  then show ?case using skip_ws_length [of rest] by simp
qed

declare parse_value.simps [simp del] parse_elements.simps [simp del] parse_members.simps [simp del]

definition JSON_parse :: "string \<Rightarrow> error + jsval" where
  "JSON_parse text =
     bindE (parse_value text) (\<lambda>(v, rest). if skip_ws rest = [] then Inr v else Inl SyntaxError)"

section \<open>The JSON adapter\<close>

type_synonym byte = "8 word"

text \<open>
  A buffer is a list of bytes. A string enters a buffer as its UTF-8 text and leaves it
  the same way.
\<close>

definition Buffer_from_utf8 :: "string \<Rightarrow> byte list" where
  "Buffer_from_utf8 s = map (\<lambda>ch. of_nat (of_char ch)) s"

definition Buffer_toString :: "byte list \<Rightarrow> string" where
  "Buffer_toString bs = map (\<lambda>b. char_of (unat b)) bs"

text \<open>\<open>buffer.toString("hex")\<close> and \<open>Buffer.from(text, "hex")\<close>, which stops at the first
  pair of characters that is not a pair of hexadecimal digits.\<close>

definition Buffer_toHex :: "byte list \<Rightarrow> string" where
  "Buffer_toHex bs = concat (map (\<lambda>b. hex2 (unat b)) bs)"

fun Buffer_from_hex :: "string \<Rightarrow> byte list" where
  "Buffer_from_hex (a # b # s) =
     (case (hex_value a, hex_value b) of
        (Some x, Some y) \<Rightarrow> of_nat (16 * x + y) # Buffer_from_hex s
      | _ \<Rightarrow> [])"
| "Buffer_from_hex _ = []"

text \<open>\<open>text.split(sep)\<close> for a separator of one character.\<close>

fun split :: "char \<Rightarrow> string \<Rightarrow> string list" where
  "split sep [] = [[]]"
| "split sep (ch # s) =
     (if ch = sep then [] # split sep s
      else (case split sep s of
              [] \<Rightarrow> [[ch]]
            | part # parts \<Rightarrow> (ch # part) # parts))"

text \<open>
  The cryptographic primitives of the runtime are parameters: \<open>scryptSync\<close>, and the
  key stream of AES-256 in counter mode, whose i-th byte \<open>keystream key iv i\<close> is
  combined with the i-th byte of the data by exclusive or, to encrypt and to decrypt.
  \<open>createCipheriv\<close> and \<open>createDecipheriv\<close> throw unless the key has 32 bytes and the
  initialization vector 16.
\<close>

record Crypto =
  scryptSync :: "string \<Rightarrow> string \<Rightarrow> nat \<Rightarrow> byte list"
  keystream :: "byte list \<Rightarrow> byte list \<Rightarrow> nat \<Rightarrow> byte"

definition aes_256_ctr :: "Crypto \<Rightarrow> byte list \<Rightarrow> byte list \<Rightarrow> byte list \<Rightarrow> error + byte list" where
  "aes_256_ctr cr key iv data =
     (if length key \<noteq> 32 then Inl (AdapterError ''Invalid key length'')
      else if length iv \<noteq> 16 then Inl (AdapterError ''Invalid initialization vector'')
      else Inr (map (\<lambda>(i, b). b XOR keystream cr key iv i) (zip [0..<length data] data)))"

text \<open>\<open>encrypt\<close> of \<^verbatim>\<open>dataCryptography.ts\<close>; \<open>iv\<close> is the value of \<open>randomBytes(16)\<close>.\<close>

definition encrypt :: "Crypto \<Rightarrow> byte list \<Rightarrow> string \<Rightarrow> string \<Rightarrow> error + string" where
  "encrypt cr iv data secretKey =
     (let key = scryptSync cr secretKey ''salt'' 32
      in bindE (aes_256_ctr cr key iv (Buffer_from_utf8 data)) (\<lambda>encrypted.
           Inr (Buffer_toHex iv @ '':'' @ Buffer_toHex encrypted)))"

text \<open>
  \<open>decrypt\<close>: the first two parts of the text are the initialization vector and the
  data; without a second part \<open>Buffer.from(undefined, "hex")\<close> throws.
\<close>

definition decrypt :: "Crypto \<Rightarrow> string \<Rightarrow> string \<Rightarrow> error + string" where
  "decrypt cr encryptedData secretKey =
     (case split CHR '':'' encryptedData of
        ivHex # encryptedHex # parts \<Rightarrow>
          (let iv = Buffer_from_hex ivHex;
               encrypted = Buffer_from_hex encryptedHex;
               key = scryptSync cr secretKey ''salt'' 32
           in bindE (aes_256_ctr cr key iv encrypted) (\<lambda>decrypted. Inr (Buffer_toString decrypted)))
      | _ \<Rightarrow> Inl TypeError)"

text \<open>
  The constructor of \<open>JsonAdapter\<close> keeps a secret key when both the user name and the
  password are given and not empty.
\<close>

record Options =
  username :: "string option"
  password :: "string option"

definition JsonAdapter_secretKey :: "Options option \<Rightarrow> string option" where
  "JsonAdapter_secretKey encryptionInfo =
     (case encryptionInfo of
        None \<Rightarrow> None
      | Some info \<Rightarrow>
          (case (username info, password info) of
             (Some u, Some p) \<Rightarrow> if u \<noteq> [] \<and> p \<noteq> [] then Some (u @ ''PYOJAN'' @ p) else None
           | _ \<Rightarrow> None))"

text \<open>
  \<open>JsonAdapter.serialize\<close> and \<open>JsonAdapter.deserialize\<close>. An error of \<open>encrypt\<close> or of
  \<open>decrypt\<close> is caught and thrown again with a message of the adapter; an error of
  \<open>JSON.parse\<close> is not caught.
\<close>

definition JsonAdapter_serialize ::
  "Crypto \<Rightarrow> string option \<Rightarrow> byte list \<Rightarrow> jsval \<Rightarrow> error + string" where
  "JsonAdapter_serialize cr secretKey iv data =
     (if typeof data \<noteq> ''object'' \<or> data = Null
      then Inl (AdapterError ''Invalid data type for serialization.'')
      else (case JSON_stringify data of
          None \<Rightarrow> Inl Unmodelled
        | Some serializeData \<Rightarrow>
            (case secretKey of
               None \<Rightarrow> Inr serializeData
             | Some key \<Rightarrow>
                 (case encrypt cr iv serializeData key of
                    Inl e \<Rightarrow> Inl (AdapterError ''Failed to serialize data in JSONAdapter'')
                  | Inr encrypted \<Rightarrow> Inr encrypted))))"

definition JsonAdapter_deserialize :: "Crypto \<Rightarrow> string option \<Rightarrow> string \<Rightarrow> error + jsval" where
  "JsonAdapter_deserialize cr secretKey data =
     (case secretKey of
        None \<Rightarrow> JSON_parse data
      | Some key \<Rightarrow>
          (case decrypt cr data key of
             Inl e \<Rightarrow> Inl (AdapterError ''Failed to deserialize data in JSONAdapter'')
           | Inr deserializeData \<Rightarrow> JSON_parse deserializeData))"

definition JsonAdapter :: "Crypto \<Rightarrow> string option \<Rightarrow> byte list \<Rightarrow> Adapter" where
  "JsonAdapter cr secretKey iv =
     \<lparr>serialize = JsonAdapter_serialize cr secretKey iv,
      deserialize = JsonAdapter_deserialize cr secretKey\<rparr>"

section \<open>Notions used in the statements\<close>

text \<open>An operator object with one key removed.\<close>

definition without_key :: "string \<Rightarrow> jsval \<Rightarrow> jsval" where
  "without_key k q = (case q of Obj kvs \<Rightarrow> Obj (filter (\<lambda>(k', v). k' \<noteq> k) kvs) | _ \<Rightarrow> q)"

text \<open>
  Concrete instances for the examples: stand-ins for the cryptographic primitives, the
  adapter without credentials, the text stored for a value, a collection of users and a
  world in which one user is stored.
\<close>

definition example_crypto :: Crypto where
  "example_crypto = \<lparr>scryptSync = (\<lambda>secret salt n. replicate n (of_nat (length secret))),
                      keystream = (\<lambda>key iv i. of_nat (7 * i + 3))\<rparr>"

definition plain_adapter :: Adapter where
  "plain_adapter = JsonAdapter example_crypto None []"

definition stored :: "jsval \<Rightarrow> string" where
  "stored v = (case JSON_stringify v of Some text \<Rightarrow> text | None \<Rightarrow> [])"

definition users_collection :: Collection where
  "users_collection = \<lparr>adapter = plain_adapter, collectionPath = ''database/User.vdb'',
     the_schema = [(''name'', SchemaConfig TString True None None None),
                   (''email'', SchemaConfig TString True (Some True) None None)]\<rparr>"

definition one_user :: World where
  "one_user = \<lparr>content = stored (Arr [Obj [(''_id'', Str ''a1''), (''name'', Str ''A''), (''email'', Str ''a@x'')]]),
                counter = 7\<rparr>"

text \<open>
  A document is an object. A document holds a value in a field when the field is
  defined and strictly equal to the value.
\<close>

definition is_object :: "jsval \<Rightarrow> bool" where
  "is_object v = (case v of Obj _ \<Rightarrow> True | _ \<Rightarrow> False)"

definition holds :: "jsval \<Rightarrow> string \<Rightarrow> jsval \<Rightarrow> bool" where
  "holds item field v = (property item field \<noteq> Undefined \<and> strict_equals (property item field) v)"

text \<open>
  More instances for the examples: the readings of the clock and of the random source,
  the stored user, a batch whose two documents supply the same e-mail address, and a
  collection of posts whose array of tags is declared unique.
\<close>

definition stamps0 :: "nat \<Rightarrow> Stamp" where
  "stamps0 i = \<lparr>idTime = 1700000000000 + 1000 * i, randomValue = ''0123456789'',
                 createdTime = 1700000000000 + 1000 * int i, updatedTime = 1700000000001 + 1000 * int i\<rparr>"

definition existing_user :: jsval where
  "existing_user = Obj [(''_id'', Str ''a1''), (''name'', Str ''A''), (''email'', Str ''a@x'')]"


definition tags_collection :: Collection where
  "tags_collection = \<lparr>adapter = plain_adapter, collectionPath = ''database/Post.vdb'',
     the_schema = [(''tags'', SchemaConfig TArray True (Some True) (Some TString) None)]\<rparr>"

definition one_post :: World where
  "one_post = \<lparr>content = stored (Arr [Obj [(''_id'', Str ''p1''), (''tags'', Arr [Str ''a''])]]), counter = 7\<rparr>"

text \<open>A stored user with its engine-managed fields, as the JSON adapter reads it back.\<close>

definition full_user :: jsval where
  "full_user = Obj [(''_id'', Str ''a1''), (''name'', Str ''A''), (''email'', Str ''a@x''),
                    (''createdAt'', Str ''2023-11-14T22:13:20.000Z''),
                    (''updatedAt'', Str ''2023-11-14T22:13:20.001Z'')]"

definition one_full_user :: World where
  "one_full_user = \<lparr>content = stored (Arr [full_user]), counter = 7\<rparr>"







definition accounts_collection :: Collection where
  "accounts_collection = \<lparr>adapter = plain_adapter, collectionPath = ''database/Account.vdb'',
     the_schema = [(''username'', SchemaConfig TString True (Some True) None None),
                   (''email'', SchemaConfig TString True (Some True) None None)]\<rparr>"

definition two_accounts :: World where
  "two_accounts = \<lparr>content = stored (Arr
      [Obj [(''_id'', Str ''a1''), (''username'', Str ''ann''), (''email'', Str ''bob'')],
       Obj [(''_id'', Str ''a2''), (''username'', Str ''bob''), (''email'', Str ''cat'')]]), counter = 7\<rparr>"

text \<open>
  The values that JSON represents as they are: no \<open>undefined\<close>, no \<open>Date\<close>, objects
  with distinct keys. A text is delimited when it is empty or begins with a comma or a
  closing bracket, as the text after a value does.
\<close>

fun json_value :: "jsval \<Rightarrow> bool" where
  "json_value Undefined = False"
| "json_value Null = True"
| "json_value (Bool b) = True"
| "json_value (Num n) = True"
| "json_value (Str s) = True"
| "json_value (Date t) = False"
| "json_value (Arr xs) = list_all json_value xs"
| "json_value (Obj kvs) = (distinct (map fst kvs) \<and> list_all (\<lambda>kv. json_value (snd kv)) kvs)"

definition delimited :: "string \<Rightarrow> bool" where
  "delimited rest = (rest = [] \<or> hd rest \<in> set '',]}'')"

text \<open>The text of a value and of a member of an object, as \<open>JSON.stringify\<close> writes them.\<close>

definition value_text :: "jsval \<Rightarrow> string" where
  "value_text x = (case serializeJSONProperty x of None \<Rightarrow> ''null'' | Some s \<Rightarrow> s)"

definition member_text :: "string \<times> jsval \<Rightarrow> string" where
  "member_text kv = quoteJSONString (fst kv) @ '':'' @ value_text (snd kv)"

text \<open>
  The runtime accepts the key and the initialisation vector of an adapter when the key
  that \<open>scryptSync\<close> derives has the 32 bytes and the vector the 16 bytes that
  \<open>aes-256-ctr\<close> asks for; an adapter without credentials uses neither.
\<close>

definition accepts :: "Crypto \<Rightarrow> string option \<Rightarrow> byte list \<Rightarrow> bool" where
  "accepts cr secretKey iv =
     (case secretKey of
        None \<Rightarrow> True
      | Some key \<Rightarrow> length iv = 16 \<and> length (scryptSync cr key ''salt'' 32) = 32)"

text \<open>An adapter with credentials, an initialisation vector, and a user whose
  \<open>createdAt\<close> is a \<open>Date\<close>, as \<open>createNewDoc\<close> makes it.\<close>

definition example_key :: "string option" where
  "example_key = JsonAdapter_secretKey (Some \<lparr>username = Some ''user'', password = Some ''pass''\<rparr>)"

definition example_iv :: "byte list" where
  "example_iv = map of_nat [0..<16]"

definition new_user :: jsval where
  "new_user = Obj [(''_id'', Str ''a1''), (''name'', Str ''A''), (''createdAt'', Date 1700000000000)]"

definition read_user :: jsval where
  "read_user = Obj [(''_id'', Str ''a1''), (''name'', Str ''A''),
                    (''createdAt'', Str ''2023-11-14T22:13:20.000Z'')]"

section \<open>Basic facts\<close>

lemma bindE_Inr_iff: "bindE m f = Inr y \<longleftrightarrow> (\<exists>x. m = Inr x \<and> f x = Inr y)"
  by (cases m) (simp_all add: bindE_def)

lemma bindE_Inr [simp]: "bindE (Inr x) f = f x"
  by (simp add: bindE_def)

lemma bindE_Inl [simp]: "bindE (Inl e) f = Inl e"
  by (simp add: bindE_def)

lemma getProp_property: "q \<noteq> Undefined \<Longrightarrow> q \<noteq> Null \<Longrightarrow> getProp q k = Inr (property q k)"
  by (cases q) (simp_all add: property_def)

lemma applyQueryOperator_eq:
  assumes "q \<noteq> Undefined" and "q \<noteq> Null"
  shows "applyQueryOperator itemValue q =
     bindE (ordering_check js_gt itemValue (property q ''$gt'')) (\<lambda>c_gt.
     bindE (ordering_check js_lt itemValue (property q ''$lt'')) (\<lambda>c_lt.
     bindE (ordering_check js_ge itemValue (property q ''$gte'')) (\<lambda>c_gte.
     bindE (ordering_check js_le itemValue (property q ''$lte'')) (\<lambda>c_lte.
     bindE (in_check itemValue (property q ''$in'')) (\<lambda>c_in.
     bindE (nin_check itemValue (property q ''$nin'')) (\<lambda>c_nin.
       Inr (\<not> c_gt \<and> \<not> c_lt \<and> \<not> c_gte \<and> \<not> c_lte \<and> \<not> c_in
            \<and> (property q ''where'' = Undefined \<or> strict_equals itemValue (property q ''where'')))))))))"
  unfolding applyQueryOperator_def
  by (simp add: getProp_property [OF assms] Let_def)

lemma map_of_filter_other:
  "k' \<noteq> k \<Longrightarrow> map_of (filter (\<lambda>(k'', v). k'' \<noteq> k) kvs) k' = map_of kvs k'"
  by (induction kvs) auto

lemma map_of_filter_same: "map_of (filter (\<lambda>(k'', v). k'' \<noteq> k) kvs) k = None"
  by (induction kvs) auto

lemma property_without_other: "k' \<noteq> k \<Longrightarrow> property (without_key k (Obj kvs)) k' = property (Obj kvs) k'"
  by (simp add: without_key_def property_def map_of_filter_other)

lemma property_without_same: "property (without_key k (Obj kvs)) k = Undefined"
  by (simp add: without_key_def property_def map_of_filter_same)

lemma find_from_None_iff:
  "find_from p i docs = Inr None \<longleftrightarrow> (\<forall>d\<in>set docs. p d = Inr False)"
proof (induction docs arbitrary: i)
  case Nil
  then show ?case by simp
next
  case (Cons d docs)
  show ?case
  proof (cases "p d")
    case (Inl e)
    then show ?thesis by simp
  next
    case (Inr hit)
    with Cons show ?thesis by (cases hit) simp_all
  qed
qed

lemma writeCollectionData_failure: "writeCollectionData c data w = (Inl e, w') \<Longrightarrow> w' = w"
  by (auto simp: writeCollectionData_def split: sum.splits)

lemma read_one_user:
  "bindE (readCollectionData users_collection one_user) asArray
     = Inr [Obj [(''_id'', Str ''a1''), (''name'', Str ''A''), (''email'', Str ''a@x'')]]"
  by code_simp

lemma forEach_Inr_iff: "forEach f xs = Inr u \<longleftrightarrow> (\<forall>x\<in>set xs. f x = Inr ())"
  by (induction xs) (auto simp: bindE_Inr_iff)

lemma forEach_first_failure:
  "(\<forall>x\<in>set pre. f x = Inr ()) \<Longrightarrow> forEach f (pre @ x # post) = bindE (f x) (\<lambda>_. forEach f post)"
  by (induction pre) simp_all

lemma is_object_getProp: "is_object v \<Longrightarrow> getProp v k = Inr (property v k)"
  by (cases v) (simp_all add: is_object_def property_def)

lemma has_append: "has (xs @ [x]) v \<longleftrightarrow> has xs v \<or> strict_equals x v"
  by (auto simp: has_def list_ex_iff)

lemma has_empty: "\<not> has [] v"
  by (simp add: has_def)

lemma strict_equals_same: "is_primitive v \<Longrightarrow> strict_equals v v"
  by (cases v) (simp_all add: is_primitive_def)

lemma addItemValues_has:
  assumes "is_object item"
  shows "\<exists>m'. addItemValues item m ufs = Inr m'
           \<and> (\<forall>f v. has (m' f) v \<longleftrightarrow> has (m f) v \<or> (f \<in> set ufs \<and> holds item f v))"
proof (induction ufs arbitrary: m)
  case Nil
  then show ?case by simp
next
  case (Cons g ufs)
  define m1 where "m1 = (if property item g \<noteq> Undefined then m(g := m g @ [property item g]) else m)"
  have step: "addFieldValue item m g = Inr m1"
    by (simp add: addFieldValue_def is_object_getProp [OF assms] m1_def)
  have m1: "has (m1 f) v \<longleftrightarrow> has (m f) v \<or> (f = g \<and> holds item f v)" for f v
    by (auto simp: m1_def has_append holds_def)
  from Cons [of m1] obtain m' where m': "addItemValues item m1 ufs = Inr m'"
    and h: "\<And>f v. has (m' f) v \<longleftrightarrow> has (m1 f) v \<or> (f \<in> set ufs \<and> holds item f v)"
    by blast
  have "addItemValues item m (g # ufs) = Inr m'"
    by (simp add: step m')
  moreover have "has (m' f) v \<longleftrightarrow> has (m f) v \<or> (f \<in> set (g # ufs) \<and> holds item f v)" for f v
    using h [of f v] m1 [of f v] by auto
  ultimately show ?case by blast
qed

lemma addAllValues_has:
  assumes "\<forall>item\<in>set existing. is_object item"
  shows "\<exists>m'. addAllValues ufs m existing = Inr m'
           \<and> (\<forall>f v. has (m' f) v \<longleftrightarrow>
                 has (m f) v \<or> (f \<in> set ufs \<and> (\<exists>item\<in>set existing. holds item f v)))"
  using assms
proof (induction existing arbitrary: m)
  case Nil
  then show ?case by simp
next
  case (Cons item existing)
  then have obj: "is_object item" by simp
  from addItemValues_has [OF obj, of m ufs] obtain m1 where m1: "addItemValues item m ufs = Inr m1"
    and h1: "\<And>f v. has (m1 f) v \<longleftrightarrow> has (m f) v \<or> (f \<in> set ufs \<and> holds item f v)"
    by blast
  from Cons.IH [of m1] Cons.prems obtain m' where m': "addAllValues ufs m1 existing = Inr m'"
    and h: "\<And>f v. has (m' f) v \<longleftrightarrow>
              has (m1 f) v \<or> (f \<in> set ufs \<and> (\<exists>item\<in>set existing. holds item f v))"
    by auto
  have "addAllValues ufs m (item # existing) = Inr m'"
    by (simp add: m1 m')
  moreover have "has (m' f) v \<longleftrightarrow>
      has (m f) v \<or> (f \<in> set ufs \<and> (\<exists>it\<in>set (item # existing). holds it f v))" for f v
    using h [of f v] h1 [of f v] by auto
  ultimately show ?case by blast
qed

lemma populateUniqueFieldValues_has:
  assumes "\<forall>item\<in>set existing. is_object item"
  shows "\<exists>index. populateUniqueFieldValues ufs (Arr existing) = Inr index
           \<and> (\<forall>f v. has (index f) v \<longleftrightarrow> f \<in> set ufs \<and> (\<exists>item\<in>set existing. holds item f v))"
  using addAllValues_has [OF assms, of ufs "\<lambda>field. []"]
  by (simp add: populateUniqueFieldValues_def asArray_def has_empty)

lemma checkDuplicate_object:
  "is_object doc \<Longrightarrow> checkDuplicate c index doc f =
     (if property doc f \<noteq> Undefined \<and> has (index f) (property doc f)
      then Inl (DuplicateKeyError (getCollectionName c) f (property doc f)) else Inr ())"
  by (simp add: checkDuplicate_def is_object_getProp)



lemma one_user_read: "readCollectionData users_collection one_user = Inr (Arr [existing_user])"
  by code_simp





















section \<open>Reading back what was written\<close>

subsection \<open>Numbers\<close>

lemma digit_chars_digit: "d < 10 \<Longrightarrow> is_digit (digit_chars ! d) \<and> digit_value (digit_chars ! d) = d"
proof -
  have "\<forall>d\<in>set [0..<10]. is_digit (digit_chars ! d) \<and> digit_value (digit_chars ! d) = d"
    by code_simp
  then show "d < 10 \<Longrightarrow> is_digit (digit_chars ! d) \<and> digit_value (digit_chars ! d) = d"
    by simp
qed

lemma digit_chars_nonzero: "0 < d \<Longrightarrow> d < 10 \<Longrightarrow> digit_chars ! d \<noteq> CHR ''0''"
proof -
  have "\<forall>d\<in>set [1..<10]. digit_chars ! d \<noteq> CHR ''0''"
    by code_simp
  then show "0 < d \<Longrightarrow> d < 10 \<Longrightarrow> digit_chars ! d \<noteq> CHR ''0''"
    by simp
qed

lemma toString10_nonempty: "toString10 n \<noteq> []"
  by (subst toString10.simps) simp

lemma toString10_digits: "list_all is_digit (toString10 n)"
proof (induction n rule: toString10.induct)
  case (1 n)
  show ?case
  proof (cases "n < 10")
    case True
    then show ?thesis by (subst toString10.simps) (simp add: digit_chars_digit)
  next
    case False
    with 1 show ?thesis by (subst toString10.simps) (simp add: digit_chars_digit)
  qed
qed

lemma nat_of_digits_snoc: "nat_of_digits (s @ [c]) = 10 * nat_of_digits s + digit_value c"
  by (simp add: nat_of_digits_def)

lemma nat_of_digits_toString10: "nat_of_digits (toString10 n) = n"
proof (induction n rule: toString10.induct)
  case (1 n)
  show ?case
  proof (cases "n < 10")
    case True
    then show ?thesis
      by (subst toString10.simps) (simp add: nat_of_digits_def digit_chars_digit)
  next
    case False
    with 1 show ?thesis
      by (subst toString10.simps) (simp add: nat_of_digits_snoc digit_chars_digit)
  qed
qed

lemma toString10_hd: "0 < n \<Longrightarrow> hd (toString10 n) \<noteq> CHR ''0''"
proof (induction n rule: toString10.induct)
  case (1 n)
  show ?case
  proof (cases "n < 10")
    case True
    with "1.prems" show ?thesis by (subst toString10.simps) (simp add: digit_chars_nonzero)
  next
    case False
    then have "0 < n div 10" by simp
    with 1 False show ?thesis
      by (subst toString10.simps) (simp add: toString10_nonempty)
  qed
qed

lemma toString10_length: "1 < length (toString10 n) \<Longrightarrow> 0 < n"
  by (cases "n = 0") (simp_all add: toString10.simps)

lemma is_digit_not_marks:
  "is_digit c \<Longrightarrow> c \<noteq> CHR ''-'' \<and> c \<noteq> CHR ''t'' \<and> c \<noteq> CHR ''f'' \<and> c \<noteq> CHR ''n''
     \<and> c \<noteq> CHR ''['' \<and> c \<noteq> CHR ''{'' \<and> c \<noteq> dquote \<and> \<not> is_ws c \<and> c \<noteq> CHR '']''"
  by (auto simp: is_digit_def dquote_def is_ws_def)

lemma delimited_not_digit: "delimited rest \<Longrightarrow> rest \<noteq> [] \<Longrightarrow> \<not> is_digit (hd rest) \<and> hd rest \<notin> set ''.eE''"
  by (auto simp: delimited_def is_digit_def)

lemma takeWhile_digits:
  "list_all is_digit ds \<Longrightarrow> delimited rest \<Longrightarrow> takeWhile is_digit (ds @ rest) = ds \<and> dropWhile is_digit (ds @ rest) = rest"
proof (induction ds)
  case Nil
  then show ?case
    using delimited_not_digit [of rest] by (cases rest) auto
next
  case (Cons d ds)
  then show ?case by simp
qed

lemma parse_number_digits:
  assumes "delimited rest"
  shows "parse_number (toString10 n @ rest) = Inr (int n, rest)"
proof -
  let ?ds = "toString10 n"
  have ne: "?ds \<noteq> []" by (rule toString10_nonempty)
  have dg: "list_all is_digit ?ds" by (rule toString10_digits)
  then have "is_digit (hd ?ds)" using ne by (cases ?ds) simp_all
  then have nominus: "hd (?ds @ rest) \<noteq> CHR ''-''"
    using ne is_digit_not_marks by (cases ?ds) auto
  have lead: "\<not> (1 < length ?ds \<and> hd ?ds = CHR ''0'')"
    using toString10_hd [of n] toString10_length [of n] by auto
  have tail: "rest \<noteq> [] \<longrightarrow> hd rest \<notin> set ''.eE''"
    using delimited_not_digit [OF assms] by auto
  show ?thesis
    unfolding parse_number_def
    using takeWhile_digits [OF dg assms] ne nominus lead tail
    by (auto simp: Let_def nat_of_digits_toString10)
qed

lemma parse_number_text:
  assumes "delimited rest"
  shows "parse_number (number_text n @ rest) = Inr (n, rest)"
proof (cases "n < 0")
  case False
  then show ?thesis
    using parse_number_digits [OF assms, of "nat n"] by (simp add: number_text_def)
next
  case True
  let ?ds = "toString10 (nat (- n))"
  have ne: "?ds \<noteq> []" by (rule toString10_nonempty)
  have dg: "list_all is_digit ?ds" by (rule toString10_digits)
  have lead: "\<not> (1 < length ?ds \<and> hd ?ds = CHR ''0'')"
    using toString10_hd [of "nat (- n)"] toString10_length [of "nat (- n)"] by auto
  have tail: "rest \<noteq> [] \<longrightarrow> hd rest \<notin> set ''.eE''"
    using delimited_not_digit [OF assms] by auto
  show ?thesis
    unfolding parse_number_def number_text_def
    using True takeWhile_digits [OF dg assms] ne lead tail
    by (auto simp: Let_def nat_of_digits_toString10)
qed

subsection \<open>Strings\<close>

lemma hex_value_digit_chars: "d < 16 \<Longrightarrow> hex_value (digit_chars ! d) = Some d"
proof -
  have "\<forall>d\<in>set [0..<16]. hex_value (digit_chars ! d) = Some d"
    by code_simp
  then show "d < 16 \<Longrightarrow> hex_value (digit_chars ! d) = Some d"
    by simp
qed

lemma hex4_escape: "n < 256 \<Longrightarrow> hex4 (CHR ''0'' # CHR ''0'' # hex2 n @ s) = Some n"
proof -
  assume "n < 256"
  then have "n div 16 < 16" "n mod 16 < 16" by simp_all
  moreover have "hex_value CHR ''0'' = Some 0" by code_simp
  ultimately show ?thesis
    by (simp add: hex4_def hex2_def hex_value_digit_chars)
qed

lemma drop_escape: "drop 4 (CHR ''0'' # CHR ''0'' # hex2 n @ s) = s"
  by (simp add: hex2_def)

lemma special_chars:
  "dquote \<noteq> backslash" "backslash \<noteq> dquote" "CHR ''u'' \<noteq> dquote" "CHR ''u'' \<noteq> backslash"
  "unescape dquote = Some dquote" "unescape backslash = Some backslash"
  "unescape CHR ''b'' = Some (CHR 0x08)" "unescape CHR ''f'' = Some (CHR 0x0C)"
  "unescape CHR ''n'' = Some (CHR 0x0A)" "unescape CHR ''r'' = Some (CHR 0x0D)"
  "unescape CHR ''t'' = Some (CHR 0x09)"
  "CHR ''b'' \<noteq> CHR ''u''" "CHR ''f'' \<noteq> CHR ''u''" "CHR ''n'' \<noteq> CHR ''u''"
  "CHR ''r'' \<noteq> CHR ''u''" "CHR ''t'' \<noteq> CHR ''u''" "dquote \<noteq> CHR ''u''" "backslash \<noteq> CHR ''u''"
  by (simp_all add: dquote_def backslash_def unescape_def)

lemma parse_chars_escape:
  assumes "parse_chars s = Inr (str, rest)"
  shows "parse_chars (escape_char ch @ s) = Inr (ch # str, rest)"
proof -
  consider (q) "ch = dquote" | (b) "ch = backslash" | (bs) "ch = CHR 0x08" | (ff) "ch = CHR 0x0C"
    | (nl) "ch = CHR 0x0A" | (cr) "ch = CHR 0x0D" | (tab) "ch = CHR 0x09"
    | (ctl) "ch \<noteq> dquote" "ch \<noteq> backslash" "ch \<noteq> CHR 0x08" "ch \<noteq> CHR 0x0C" "ch \<noteq> CHR 0x0A"
        "ch \<noteq> CHR 0x0D" "ch \<noteq> CHR 0x09" "(of_char ch :: nat) < 0x20"
    | (plain) "ch \<noteq> dquote" "ch \<noteq> backslash" "\<not> (of_char ch :: nat) < 0x20"
    by blast
  then show ?thesis
  proof cases
    case q
    then show ?thesis using assms by (simp add: escape_char_def special_chars)
  next
    case b
    then show ?thesis using assms by (simp add: escape_char_def special_chars)
  next
    case bs
    then show ?thesis using assms
      by (simp add: escape_char_def special_chars)
  next
    case ff
    then show ?thesis using assms
      by (simp add: escape_char_def special_chars)
  next
    case nl
    then show ?thesis using assms
      by (simp add: escape_char_def special_chars)
  next
    case cr
    then show ?thesis using assms
      by (simp add: escape_char_def special_chars)
  next
    case tab
    then show ?thesis using assms
      by (simp add: escape_char_def special_chars)
  next
    case ctl
    have small: "(of_char ch :: nat) < 128" "(of_char ch :: nat) < 256"
      using ctl(8) by simp_all
    have "char_of (of_char ch :: nat) = ch" by simp
    then show ?thesis
      using assms ctl small
      by (simp add: escape_char_def special_chars hex4_escape drop_escape del: drop_Cons_numeral)
  next
    case plain
    have "ch \<noteq> CHR 0x08" "ch \<noteq> CHR 0x0C" "ch \<noteq> CHR 0x0A" "ch \<noteq> CHR 0x0D" "ch \<noteq> CHR 0x09"
      using plain(3) by auto
    with plain show ?thesis using assms by (simp add: escape_char_def)
  qed
qed

lemma parse_chars_quoted:
  "parse_chars (concat (map escape_char s) @ dquote # rest) = Inr (s, rest)"
proof (induction s)
  case Nil
  then show ?case by simp
next
  case (Cons ch s)
  from parse_chars_escape [OF Cons.IH, of ch] show ?case by simp
qed

lemma quoteJSONString_parse:
  "quoteJSONString s @ rest = dquote # concat (map escape_char s) @ dquote # rest"
  by (simp add: quoteJSONString_def)


subsection \<open>Values\<close>

lemma skip_ws_head: "\<not> is_ws c \<Longrightarrow> skip_ws (c # t) = c # t"
  by (simp add: skip_ws_def)

lemma toString10_head: "\<exists>c t. toString10 m = c # t \<and> is_digit c"
  using toString10_digits [of m] toString10_nonempty [of m] by (cases "toString10 m") simp_all

lemma number_text_head: "\<exists>c t. number_text n = c # t \<and> (c = CHR ''-'' \<or> is_digit c)"
  using toString10_head [of "nat n"] by (auto simp: number_text_def)

lemma value_text_head:
  "json_value v \<Longrightarrow> \<exists>c t. value_text v = c # t \<and> \<not> is_ws c \<and> c \<noteq> CHR '']'' \<and> c \<noteq> CHR ''}''"
proof (cases v)
  case (Num n)
  from number_text_head [of n] obtain c t where "number_text n = c # t" "c = CHR ''-'' \<or> is_digit c"
    by blast
  with Num show ?thesis
    using is_digit_not_marks [of c] by (auto simp: value_text_def is_ws_def is_digit_def)
qed (auto simp: value_text_def is_ws_def quoteJSONString_def dquote_def)

lemma value_text_nonempty: "json_value v \<Longrightarrow> value_text v \<noteq> []"
  using value_text_head by fastforce

lemma delimited_simps: "delimited (CHR '','' # s)" "delimited (CHR '']'' # s)" "delimited (CHR ''}'' # s)" "delimited []"
  by (simp_all add: delimited_def)

lemma parse_value_null: "parse_value (''null'' @ rest) = Inr (Null, rest)"
  by (subst parse_value.simps) (simp add: skip_ws_head is_ws_def dquote_def parse_literal_def)

lemma parse_value_true: "parse_value (''true'' @ rest) = Inr (Bool True, rest)"
  by (subst parse_value.simps) (simp add: skip_ws_head is_ws_def dquote_def parse_literal_def)

lemma parse_value_false: "parse_value (''false'' @ rest) = Inr (Bool False, rest)"
  by (subst parse_value.simps) (simp add: skip_ws_head is_ws_def dquote_def parse_literal_def)

lemma parse_value_number:
  assumes "delimited rest"
  shows "parse_value (number_text n @ rest) = Inr (Num n, rest)"
proof -
  from number_text_head [of n] obtain c t where ct: "number_text n = c # t" and c: "c = CHR ''-'' \<or> is_digit c"
    by blast
  have marks: "\<not> is_ws c \<and> c \<noteq> CHR ''['' \<and> c \<noteq> CHR ''{'' \<and> c \<noteq> dquote
    \<and> c \<noteq> CHR ''t'' \<and> c \<noteq> CHR ''f'' \<and> c \<noteq> CHR ''n''"
  proof (cases "c = CHR ''-''")
    case True
    then show ?thesis by (simp add: is_ws_def dquote_def)
  next
    case False
    with c have "is_digit c" by simp
    from is_digit_not_marks [OF this] show ?thesis by simp
  qed
  have num: "parse_number (c # t @ rest) = Inr (n, rest)"
    using parse_number_text [OF assms, of n] unfolding ct append_Cons .
  have "parse_literal (c # t @ rest) = Inr (Num n, rest)"
    using marks by (simp add: parse_literal_def num)
  then have "parse_value (c # t @ rest) = Inr (Num n, rest)"
    using marks by (subst parse_value.simps) (simp add: skip_ws_head)
  then show ?thesis by (simp add: ct)
qed

lemma parse_value_string: "parse_value (quoteJSONString s @ rest) = Inr (Str s, rest)"
proof -
  have ws: "\<not> is_ws dquote" "dquote \<noteq> CHR ''[''" "dquote \<noteq> CHR ''{''"
    by (simp_all add: is_ws_def dquote_def)
  have "parse_value (dquote # concat (map escape_char s) @ dquote # rest) = Inr (Str s, rest)"
    using ws by (subst parse_value.simps) (simp add: skip_ws_head parse_chars_quoted)
  then show ?thesis by (simp add: quoteJSONString_def)
qed

lemma parse_elements_single:
  assumes "parse_value (a @ CHR '']'' # rest) = Inr (x, CHR '']'' # rest)" and "a \<noteq> []"
  shows "parse_elements (a @ CHR '']'' # rest) = Inr ([x], rest)"
  using assms by (subst parse_elements.simps) (simp add: skip_ws_head is_ws_def)

lemma parse_elements_more:
  assumes "parse_value (a @ CHR '','' # s) = Inr (x, CHR '','' # s)" and "a \<noteq> []"
    and "parse_elements s = Inr (xs, rest)"
  shows "parse_elements (a @ CHR '','' # s) = Inr (x # xs, rest)"
  using assms by (subst parse_elements.simps) (simp add: skip_ws_head is_ws_def)

lemma join_Cons: "xs \<noteq> [] \<Longrightarrow> join sep (x # xs) = x @ sep @ join sep xs"
  by (cases xs) simp_all

lemma parse_elements_join:
  assumes "xs \<noteq> []"
    and "\<And>x rest. x \<in> set xs \<Longrightarrow> delimited rest \<Longrightarrow> parse_value (value_text x @ rest) = Inr (x, rest)"
    and "\<And>x. x \<in> set xs \<Longrightarrow> value_text x \<noteq> []"
  shows "parse_elements (join '','' (map value_text xs) @ CHR '']'' # rest) = Inr (xs, rest)"
  using assms
proof (induction xs)
  case Nil
  then show ?case by simp
next
  case (Cons x xs)
  have ne: "value_text x \<noteq> []" using Cons.prems(3) by simp
  show ?case
  proof (cases "xs = []")
    case True
    have "parse_value (value_text x @ CHR '']'' # rest) = Inr (x, CHR '']'' # rest)"
      using Cons.prems(2) [of x] by (simp add: delimited_simps)
    from parse_elements_single [OF this ne] True show ?thesis by simp
  next
    case False
    let ?tail = "join '','' (map value_text xs) @ CHR '']'' # rest"
    have 1: "parse_value (value_text x @ CHR '','' # ?tail) = Inr (x, CHR '','' # ?tail)"
      using Cons.prems(2) [of x] by (simp add: delimited_simps)
    have 2: "parse_elements ?tail = Inr (xs, rest)"
      using Cons.prems False by (intro Cons.IH) auto
    from parse_elements_more [OF 1 ne 2] False show ?thesis
      by (simp add: join_Cons)
  qed
qed

lemma parse_members_last:
  assumes "parse_value (a @ CHR ''}'' # rest) = Inr (v, CHR ''}'' # rest)" and "a \<noteq> []"
  shows "parse_members acc (quoteJSONString k @ CHR '':'' # a @ CHR ''}'' # rest)
           = Inr (Obj (setProp acc k v), rest)"
proof -
  have key: "parse_chars (concat (map escape_char k) @ dquote # CHR '':'' # a @ CHR ''}'' # rest)
               = Inr (k, CHR '':'' # a @ CHR ''}'' # rest)"
    by (rule parse_chars_quoted)
  have ws: "\<not> is_ws dquote" "\<not> is_ws CHR '':''" "\<not> is_ws CHR ''}''"
    by (simp_all add: is_ws_def dquote_def)
  have "parse_members acc (dquote # concat (map escape_char k) @ dquote # CHR '':'' # a @ CHR ''}'' # rest)
           = Inr (Obj (setProp acc k v), rest)"
    using assms ws by (subst parse_members.simps) (simp add: skip_ws_head key)
  then show ?thesis by (simp add: quoteJSONString_def)
qed

lemma parse_members_more:
  assumes "parse_value (a @ CHR '','' # s) = Inr (v, CHR '','' # s)" and "a \<noteq> []"
    and "parse_members (setProp acc k v) s = Inr (obj, rest)"
  shows "parse_members acc (quoteJSONString k @ CHR '':'' # a @ CHR '','' # s) = Inr (obj, rest)"
proof -
  have key: "parse_chars (concat (map escape_char k) @ dquote # CHR '':'' # a @ CHR '','' # s)
               = Inr (k, CHR '':'' # a @ CHR '','' # s)"
    by (rule parse_chars_quoted)
  have ws: "\<not> is_ws dquote" "\<not> is_ws CHR '':''" "\<not> is_ws CHR '',''"
    by (simp_all add: is_ws_def dquote_def)
  have "parse_members acc (dquote # concat (map escape_char k) @ dquote # CHR '':'' # a @ CHR '','' # s)
           = Inr (obj, rest)"
    using assms ws by (subst parse_members.simps) (simp add: skip_ws_head key)
  then show ?thesis by (simp add: quoteJSONString_def)
qed

lemma parse_members_join:
  assumes "kvs \<noteq> []"
    and "\<And>kv rest. kv \<in> set kvs \<Longrightarrow> delimited rest \<Longrightarrow>
           parse_value (value_text (snd kv) @ rest) = Inr (snd kv, rest)"
    and "\<And>kv. kv \<in> set kvs \<Longrightarrow> value_text (snd kv) \<noteq> []"
  shows "parse_members acc (join '','' (map member_text kvs) @ CHR ''}'' # rest)
           = Inr (Obj (foldl (\<lambda>a (k, v). setProp a k v) acc kvs), rest)"
  using assms
proof (induction kvs arbitrary: acc)
  case Nil
  then show ?case by simp
next
  case (Cons kv kvs)
  obtain k v where kv: "kv = (k, v)" by (cases kv)
  have ne: "value_text v \<noteq> []" using Cons.prems(3) [of kv] kv by simp
  have mt: "member_text (k, v) = quoteJSONString k @ CHR '':'' # value_text v"
    by (simp add: member_text_def)
  show ?case
  proof (cases "kvs = []")
    case True
    have "parse_value (value_text v @ CHR ''}'' # rest) = Inr (v, CHR ''}'' # rest)"
      using Cons.prems(2) [of kv] kv by (simp add: delimited_simps)
    from parse_members_last [OF this ne, of acc k] True show ?thesis
      by (simp add: mt kv)
  next
    case False
    let ?tail = "join '','' (map member_text kvs) @ CHR ''}'' # rest"
    have 1: "parse_value (value_text v @ CHR '','' # ?tail) = Inr (v, CHR '','' # ?tail)"
      using Cons.prems(2) [of kv] kv by (simp add: delimited_simps)
    have 2: "parse_members (setProp acc k v) ?tail
               = Inr (Obj (foldl (\<lambda>a (k, v). setProp a k v) (setProp acc k v) kvs), rest)"
      using Cons.prems False by (intro Cons.IH) auto
    from parse_members_more [OF 1 ne 2] False show ?thesis
      by (simp add: mt kv join_Cons)
  qed
qed

lemma parse_value_empty_array: "parse_value (''[]'' @ rest) = Inr (Arr [], rest)"
  by (subst parse_value.simps) (simp add: skip_ws_head is_ws_def)

lemma parse_value_array:
  assumes "parse_elements (c # t) = Inr (xs, rest)" and "\<not> is_ws c" and "c \<noteq> CHR '']''"
  shows "parse_value (CHR ''['' # c # t) = Inr (Arr xs, rest)"
  using assms by (subst parse_value.simps) (simp add: skip_ws_head is_ws_def)

lemma parse_value_empty_object: "parse_value (''{}'' @ rest) = Inr (Obj [], rest)"
  by (subst parse_value.simps) (simp add: skip_ws_head is_ws_def)

lemma parse_value_object:
  assumes "parse_members [] (dquote # t) = Inr (obj, rest)"
  shows "parse_value (CHR ''{'' # dquote # t) = Inr (obj, rest)"
  using assms by (subst parse_value.simps) (simp add: skip_ws_head is_ws_def dquote_def)

lemma setProp_new: "k \<notin> fst ` set acc \<Longrightarrow> setProp acc k v = acc @ [(k, v)]"
  by (induction acc) auto

lemma foldl_setProp_distinct:
  "distinct (map fst (acc @ kvs)) \<Longrightarrow> foldl (\<lambda>a (k, v). setProp a k v) acc kvs = acc @ kvs"
proof (induction kvs arbitrary: acc)
  case Nil
  then show ?case by simp
next
  case (Cons kv kvs)
  obtain k v where kv: "kv = (k, v)" by (cases kv)
  from Cons.prems kv have new: "k \<notin> fst ` set acc" by auto
  from Cons.prems kv have "distinct (map fst ((acc @ [(k, v)]) @ kvs))" by simp
  from Cons.IH [OF this] show ?case
    by (simp add: kv setProp_new [OF new])
qed

lemma serialize_json_value: "json_value v \<Longrightarrow> serializeJSONProperty v = Some (value_text v)"
  by (cases v) (simp_all add: value_text_def)

lemma members_text:
  "list_all (\<lambda>kv. json_value (snd kv)) kvs \<Longrightarrow>
     concat (map (\<lambda>(k, v). case serializeJSONProperty v of
                     None \<Rightarrow> [] | Some s \<Rightarrow> [quoteJSONString k @ '':'' @ s]) kvs)
       = map member_text kvs"
proof (induction kvs)
  case Nil
  then show ?case by simp
next
  case (Cons kv kvs)
  obtain k v where kv: "kv = (k, v)" by (cases kv)
  with Cons.prems have "json_value v" by simp
  from serialize_json_value [OF this] Cons kv show ?case
    by (simp add: member_text_def)
qed

lemma array_text:
  "value_text (Arr xs) = CHR ''['' # join '','' (map value_text xs) @ '']''"
  unfolding value_text_def [abs_def] by simp

lemma object_text:
  "list_all (\<lambda>kv. json_value (snd kv)) kvs \<Longrightarrow>
     value_text (Obj kvs) = CHR ''{'' # join '','' (map member_text kvs) @ ''}''"
  using members_text [of kvs] by (simp add: value_text_def)

lemma parse_value_text:
  "json_value v \<Longrightarrow> delimited rest \<Longrightarrow> parse_value (value_text v @ rest) = Inr (v, rest)"
proof (induction v arbitrary: rest)
  case Undefined
  then show ?case by simp
next
  case Null
  show ?case using parse_value_null [of rest] by (simp add: value_text_def)
next
  case (Bool b)
  show ?case using parse_value_true [of rest] parse_value_false [of rest]
    by (cases b) (simp_all add: value_text_def)
next
  case (Num n)
  show ?case using parse_value_number [OF Num.prems(2), of n] by (simp add: value_text_def)
next
  case (Str s)
  show ?case using parse_value_string [of s rest] by (simp add: value_text_def)
next
  case (Date t)
  then show ?case by simp
next
  case (Arr xs)
  show ?case
  proof (cases "xs = []")
    case True
    then show ?thesis using parse_value_empty_array [of rest] by (simp add: array_text)
  next
    case False
    from Arr.prems(1) have all: "\<And>y. y \<in> set xs \<Longrightarrow> json_value y"
      by (simp add: list_all_iff)
    have elems: "parse_elements (join '','' (map value_text xs) @ CHR '']'' # rest) = Inr (xs, rest)"
    proof (rule parse_elements_join [OF False])
      show "\<And>y r. y \<in> set xs \<Longrightarrow> delimited r \<Longrightarrow> parse_value (value_text y @ r) = Inr (y, r)"
        using Arr.IH all by blast
      show "\<And>y. y \<in> set xs \<Longrightarrow> value_text y \<noteq> []"
        using all value_text_nonempty by blast
    qed
    from False obtain x xs' where xs: "xs = x # xs'" by (cases xs) auto
    from value_text_head [OF all [of x]] xs obtain c t where
      head: "value_text x = c # t" "\<not> is_ws c" "c \<noteq> CHR '']''"
      by auto
    have "\<exists>t'. join '','' (map value_text xs) @ CHR '']'' # rest = c # t'"
      using head(1) xs by (cases xs') simp_all
    then obtain t' where t': "join '','' (map value_text xs) @ CHR '']'' # rest = c # t'"
      by blast
    from parse_value_array [OF elems [unfolded t'] head(2,3)] t' show ?thesis
      by (simp add: array_text)
  qed
next
  case (Obj kvs)
  from Obj.prems(1) have dist: "distinct (map fst kvs)"
    and all: "list_all (\<lambda>kv. json_value (snd kv)) kvs"
    by simp_all
  show ?case
  proof (cases "kvs = []")
    case True
    then show ?thesis using parse_value_empty_object [of rest] by (simp add: object_text)
  next
    case False
    have members: "parse_members [] (join '','' (map member_text kvs) @ CHR ''}'' # rest)
                     = Inr (Obj (foldl (\<lambda>a (k, v). setProp a k v) [] kvs), rest)"
    proof (rule parse_members_join [OF False])
      fix kv r
      assume kv: "kv \<in> set kvs" and r: "delimited r"
      obtain k v where "kv = (k, v)" by (cases kv)
      with kv all Obj.IH [of kv v r] r show "parse_value (value_text (snd kv) @ r) = Inr (snd kv, r)"
        by (auto simp: list_all_iff)
    next
      fix kv
      assume "kv \<in> set kvs"
      with all show "value_text (snd kv) \<noteq> []"
        using value_text_nonempty by (auto simp: list_all_iff)
    qed
    have fold: "foldl (\<lambda>a (k, v). setProp a k v) [] kvs = kvs"
      using foldl_setProp_distinct [of "[]" kvs] dist by simp
    from False obtain kv kvs' where kvs: "kvs = kv # kvs'" by (cases kvs) auto
    have "\<exists>t'. join '','' (map member_text kvs) @ CHR ''}'' # rest = dquote # t'"
      unfolding kvs by (cases kvs') (simp_all add: member_text_def quoteJSONString_def)
    then obtain t' where t': "join '','' (map member_text kvs) @ CHR ''}'' # rest = dquote # t'"
      by blast
    from parse_value_object [OF members [unfolded t' fold]] t' show ?thesis
      by (simp add: object_text [OF all])
  qed
qed

lemma JSON_round_trip:
  assumes "json_value v"
  shows "JSON_stringify v = Some (value_text v) \<and> JSON_parse (value_text v) = Inr v"
proof -
  from parse_value_text [OF assms, of "[]"] have "parse_value (value_text v) = Inr (v, [])"
    by (simp add: delimited_simps)
  then show ?thesis
    using serialize_json_value [OF assms] by (simp add: JSON_stringify_def JSON_parse_def skip_ws_def)
qed

subsection \<open>Buffers and the cipher\<close>

lemma Buffer_utf8_round_trip: "Buffer_toString (Buffer_from_utf8 s) = s"
proof -
  have "char_of (unat (of_nat (of_char ch) :: byte)) = ch" for ch :: char
  proof -
    have "(of_char ch :: nat) < 256" by simp
    then have "unat (of_nat (of_char ch) :: byte) = of_char ch"
      by (simp add: unat_of_nat)
    then show ?thesis by simp
  qed
  then show ?thesis
    by (simp add: Buffer_toString_def Buffer_from_utf8_def comp_def)
qed

lemma hex2_decode:
  "n < 256 \<Longrightarrow> hex_value (digit_chars ! (n div 16)) = Some (n div 16)
                \<and> hex_value (digit_chars ! (n mod 16)) = Some (n mod 16)"
  by (simp add: hex_value_digit_chars)

lemma Buffer_hex_round_trip: "Buffer_from_hex (Buffer_toHex bs) = bs"
proof (induction bs)
  case Nil
  then show ?case by (simp add: Buffer_toHex_def)
next
  case (Cons b bs)
  have n: "unat b < 256" using unsigned_less [of b, where ?'a = nat] by simp
  have "(of_nat (16 * (unat b div 16) + unat b mod 16) :: byte) = b"
    by simp
  with Cons hex2_decode [OF n] show ?case
    by (simp add: Buffer_toHex_def hex2_def)
qed

lemma digit_chars_no_colon: "d < 16 \<Longrightarrow> digit_chars ! d \<noteq> CHR '':''"
proof -
  have "\<forall>d\<in>set [0..<16]. digit_chars ! d \<noteq> CHR '':''"
    by code_simp
  then show "d < 16 \<Longrightarrow> digit_chars ! d \<noteq> CHR '':''"
    by simp
qed

lemma Buffer_toHex_no_colon: "CHR '':'' \<notin> set (Buffer_toHex bs)"
proof (induction bs)
  case Nil
  then show ?case by (simp add: Buffer_toHex_def)
next
  case (Cons b bs)
  have "unat b < 256" using unsigned_less [of b, where ?'a = nat] by simp
  then have "unat b div 16 < 16" "unat b mod 16 < 16" by simp_all
  then have "CHR '':'' \<noteq> digit_chars ! (unat b div 16)" "CHR '':'' \<noteq> digit_chars ! (unat b mod 16)"
    using digit_chars_no_colon by fastforce+
  with Cons show ?case
    by (simp add: Buffer_toHex_def hex2_def)
qed

lemma split_no_separator: "sep \<notin> set s \<Longrightarrow> split sep s = [s]"
  by (induction s) auto

lemma split_at_separator: "sep \<notin> set a \<Longrightarrow> split sep (a @ sep # b) = a # split sep b"
  by (induction a) auto

lemma split_frame:
  "split CHR '':'' (Buffer_toHex iv @ CHR '':'' # Buffer_toHex encrypted)
     = [Buffer_toHex iv, Buffer_toHex encrypted]"
  using split_at_separator [OF Buffer_toHex_no_colon, of iv "Buffer_toHex encrypted"]
    split_no_separator [OF Buffer_toHex_no_colon, of encrypted]
  by simp

lemma keystream_twice:
  "map (\<lambda>(i, b). b XOR k i) (zip [0..<length data] (map (\<lambda>(i, b). b XOR k i) (zip [0..<length data] data)))
     = (data :: byte list)"
  by (rule nth_equalityI) (simp_all add: xor.assoc)

lemma aes_256_ctr_round_trip:
  assumes "aes_256_ctr cr key iv data = Inr encrypted"
  shows "aes_256_ctr cr key iv encrypted = Inr data"
proof -
  from assms have len: "length key = 32" "length iv = 16"
    and enc: "encrypted = map (\<lambda>(i, b). b XOR keystream cr key iv i) (zip [0..<length data] data)"
    by (auto simp: aes_256_ctr_def split: if_splits)
  have "length encrypted = length data" by (simp add: enc)
  then show ?thesis
    using len keystream_twice [of "keystream cr key iv" data]
    by (simp add: aes_256_ctr_def enc)
qed

lemma decrypt_encrypt:
  assumes "encrypt cr iv data secretKey = Inr encrypted"
  shows "decrypt cr encrypted secretKey = Inr data"
proof -
  let ?key = "scryptSync cr secretKey ''salt'' 32"
  from assms obtain bytes where ctr: "aes_256_ctr cr ?key iv (Buffer_from_utf8 data) = Inr bytes"
    and enc: "encrypted = Buffer_toHex iv @ '':'' @ Buffer_toHex bytes"
    by (auto simp: encrypt_def Let_def bindE_Inr_iff)
  from aes_256_ctr_round_trip [OF ctr] show ?thesis
    by (simp add: decrypt_def enc split_frame Buffer_hex_round_trip Buffer_utf8_round_trip Let_def)
qed

lemma encrypt_succeeds:
  "length iv = 16 \<Longrightarrow> length (scryptSync cr secretKey ''salt'' 32) = 32 \<Longrightarrow>
     \<exists>encrypted. encrypt cr iv data secretKey = Inr encrypted"
  by (simp add: encrypt_def aes_256_ctr_def Let_def)

section \<open>Query operators\<close>

text \<open>
  Claim C1. \<open>$eq\<close> should require the field value to equal the operand, \<open>$ne\<close> should
  require it to differ, \<open>$nin\<close> should require the absence of membership. The entries of
  these three operators carry the flag \<open>negate = false\<close>, which makes
  \<open>!negate || !check\<close> hold whatever the check says: a field value 5 matches
  \<open>{$eq: 6}\<close>, \<open>{$ne: 5}\<close> and \<open>{$nin: [5]}\<close>, while \<open>$in\<close> and the ordering operators
  do constrain the match.
\<close>

theorem applyQueryOperator_eq_ne_nin_ignored:
  "applyQueryOperator (Num 5) (Obj [(''$eq'', Num 6)]) = Inr True
   \<and> applyQueryOperator (Num 5) (Obj [(''$ne'', Num 5)]) = Inr True
   \<and> applyQueryOperator (Num 5) (Obj [(''$nin'', Arr [Num 5])]) = Inr True
   \<and> applyQueryOperator (Num 5) (Obj [(''$in'', Arr [Num 4])]) = Inr False
   \<and> applyQueryOperator (Num 5) (Obj [(''$gt'', Num 5)]) = Inr False"
  by code_simp

theorem applyQueryOperator_eq_ne_nin_ignored_witness:
  "applyQueryOperator (Num 5) (Obj [(''$eq'', Num 6)]) \<noteq> Inr False"
  using applyQueryOperator_eq_ne_nin_ignored by simp

text \<open>
  Claim C10. An object that declares \<open>where: v\<close> is classified as an operator object by
  \<open>isQueryOperator\<close>. The constraint \<open>where: v\<close> alone is satisfied exactly when the
  field value is strictly equal to \<open>v\<close>, and together with other operators the field
  matches exactly when the other operators match and the field value is strictly equal to
  \<open>v\<close>.
\<close>

theorem where_operator:
  assumes "getProp q ''where'' = Inr v" and "v \<noteq> Undefined"
  shows "isQueryOperator q = Inr True
       \<and> applyQueryOperator itemValue (Obj [(''where'', v)]) = Inr (strict_equals itemValue v)
       \<and> (\<forall>b. applyQueryOperator itemValue q = Inr b \<longrightarrow>
            (\<exists>others. applyQueryOperator itemValue (without_key ''where'' q) = Inr others
                    \<and> b = (others \<and> strict_equals itemValue v)))"
proof -
  from assms obtain kvs where q: "q = Obj kvs" and look: "map_of kvs ''where'' = Some v"
    by (cases q) (auto simp: indexed_def array_index_def is_digit_def split: option.splits if_splits)
  have "''where'' \<in> set (map fst kvs)"
    using look by (metis map_of_eq_None_iff option.distinct(1) set_map)
  then have classified: "isQueryOperator q = Inr True"
    by (force simp: isQueryOperator_def Object_keys_def q operator_keys_def list_ex_iff)
  have pw: "property q ''where'' = v"
    using look by (simp add: q property_def)
  have sole: "applyQueryOperator itemValue (Obj [(''where'', v)]) = Inr (strict_equals itemValue v)"
    using assms(2)
    by (simp add: applyQueryOperator_eq property_def ordering_check_def in_check_def nin_check_def)
  have conj: "\<exists>others. applyQueryOperator itemValue (without_key ''where'' q) = Inr others
                    \<and> b = (others \<and> strict_equals itemValue v)"
    if "applyQueryOperator itemValue q = Inr b" for b
  proof -
    have w: "without_key ''where'' q \<noteq> Undefined" "without_key ''where'' q \<noteq> Null"
      by (simp_all add: q without_key_def)
    have q': "q \<noteq> Undefined" "q \<noteq> Null"
      by (simp_all add: q)
    from that obtain c_gt c_lt c_gte c_lte c_in c_nin where
      c: "ordering_check js_gt itemValue (property q ''$gt'') = Inr c_gt"
         "ordering_check js_lt itemValue (property q ''$lt'') = Inr c_lt"
         "ordering_check js_ge itemValue (property q ''$gte'') = Inr c_gte"
         "ordering_check js_le itemValue (property q ''$lte'') = Inr c_lte"
         "in_check itemValue (property q ''$in'') = Inr c_in"
         "nin_check itemValue (property q ''$nin'') = Inr c_nin"
      and b: "b = (\<not> c_gt \<and> \<not> c_lt \<and> \<not> c_gte \<and> \<not> c_lte \<and> \<not> c_in
            \<and> (property q ''where'' = Undefined \<or> strict_equals itemValue (property q ''where'')))"
      unfolding applyQueryOperator_eq [OF q'] bindE_Inr_iff sum.inject by blast
    have "applyQueryOperator itemValue (without_key ''where'' q)
        = Inr (\<not> c_gt \<and> \<not> c_lt \<and> \<not> c_gte \<and> \<not> c_lte \<and> \<not> c_in)"
      unfolding applyQueryOperator_eq [OF w]
      using c unfolding q
      by (simp add: property_without_same property_without_other)
    with b pw assms(2) show ?thesis by simp
  qed
  from classified sole conj show ?thesis by blast
qed

theorem where_operator_witness:
  "getProp (Obj [(''$gte'', Num 18), (''where'', Num 30)]) ''where'' = Inr (Num 30) \<and> Num 30 \<noteq> Undefined
   \<and> isQueryOperator (Obj [(''$gte'', Num 18), (''where'', Num 30)]) = Inr True
   \<and> applyQueryOperator (Num 30) (Obj [(''where'', Num 30)]) = Inr True
   \<and> applyQueryOperator (Num 31) (Obj [(''$gte'', Num 18), (''where'', Num 30)]) = Inr False
   \<and> applyQueryOperator (Num 31) (without_key ''where'' (Obj [(''$gte'', Num 18), (''where'', Num 30)])) = Inr True"
proof -
  have h: "getProp (Obj [(''$gte'', Num 18), (''where'', Num 30)]) ''where'' = Inr (Num 30)"
    by simp
  have e: "applyQueryOperator (Num 31) (Obj [(''$gte'', Num 18), (''where'', Num 30)]) = Inr False"
    by code_simp
  have e2: "applyQueryOperator (Num 31) (without_key ''where'' (Obj [(''$gte'', Num 18), (''where'', Num 30)])) = Inr True"
    by code_simp
  from where_operator [OF h, of "Num 30"] e e2 h show ?thesis by simp
qed

section \<open>Schema validation\<close>

text \<open>
  Claim C7. A value supplied for a field of type object should be rejected unless it is
  a non-array, non-null composite. The test is \<open>typeof value !== "object"\<close>, which
  \<open>null\<close> passes: without a nested schema \<open>null\<close> is accepted, and with a nested
  schema the nested validation reads a property of \<open>null\<close> and throws a TypeError
  instead of returning a result. An array is rejected, and the error of a nested object
  is returned as it is.
\<close>

theorem validate_object_accepts_null:
  "validate [(''address'', SchemaConfig TObject True None None None)] (Obj [(''address'', Null)])
     = Inr \<lparr>status = SUCCESS, errorMessage = ''''\<rparr>
   \<and> validate [(''address'', SchemaConfig TObject True None None
                   (Some [(''city'', SchemaConfig TString True None None None)]))]
        (Obj [(''address'', Null)])
     = Inl TypeError
   \<and> validate [(''address'', SchemaConfig TObject True None None None)] (Obj [(''address'', Arr [])])
     = Inr \<lparr>status = ERROR, errorMessage = ''Property address should be an object.''\<rparr>
   \<and> validate [(''address'', SchemaConfig TObject True None None
                   (Some [(''city'', SchemaConfig TString True None None None)]))]
        (Obj [(''address'', Obj [(''city'', Num 5)])])
     = Inr \<lparr>status = ERROR, errorMessage = ''Property city should be of type string.''\<rparr>"
  by code_simp

theorem validate_object_accepts_null_witness:
  "validate [(''address'', SchemaConfig TObject True None None None)] (Obj [(''address'', Null)])
     \<noteq> Inr \<lparr>status = ERROR, errorMessage = ''Property address should be an object.''\<rparr>"
  using validate_object_accepts_null by simp

section \<open>Deletion\<close>

text \<open>
  Claim C8. When no stored document has the given \<open>_id\<close>, \<open>deleteById\<close> fails with its
  not-found error and leaves the world as it was; when no stored document matches the
  query, so does \<open>deleteOne\<close>. More generally a delete that fails, for whatever reason,
  has written nothing.
\<close>

theorem failed_delete_writes_nothing:
  "(\<forall>docs. bindE (readCollectionData c w) asArray = Inr docs
        \<and> (\<forall>d\<in>set docs. hasId ident d = Inr False)
      \<longrightarrow> deleteById c ident w = (Inl NoDocumentMatchesID, w))
   \<and> (\<forall>docs. bindE (readCollectionData c w) asArray = Inr docs
        \<and> (\<forall>d\<in>set docs. matchesQuery d query = Inr False)
      \<longrightarrow> deleteOne c query w = (Inl NoDocumentMatchesQuery, w))
   \<and> (\<forall>e w'. deleteById c ident w = (Inl e, w') \<longrightarrow> w' = w)
   \<and> (\<forall>e w'. deleteOne c query w = (Inl e, w') \<longrightarrow> w' = w)"
proof (intro conjI allI impI)
  fix docs
  assume "bindE (readCollectionData c w) asArray = Inr docs \<and> (\<forall>d\<in>set docs. hasId ident d = Inr False)"
  then have "bindE (readCollectionData c w) asArray = Inr docs" "find_from (hasId ident) 0 docs = Inr None"
    by (simp_all add: find_from_None_iff)
  then show "deleteById c ident w = (Inl NoDocumentMatchesID, w)"
    by (simp add: deleteById_def)
next
  fix docs
  assume "bindE (readCollectionData c w) asArray = Inr docs \<and> (\<forall>d\<in>set docs. matchesQuery d query = Inr False)"
  then have "bindE (readCollectionData c w) asArray = Inr docs"
    "find_from (\<lambda>item. matchesQuery item query) 0 docs = Inr None"
    by (simp_all add: find_from_None_iff)
  then show "deleteOne c query w = (Inl NoDocumentMatchesQuery, w)"
    by (simp add: deleteOne_def)
next
  fix e w'
  assume "deleteById c ident w = (Inl e, w')"
  then show "w' = w"
    unfolding deleteById_def
    by (auto split: sum.splits option.splits if_splits dest: writeCollectionData_failure)
next
  fix e w'
  assume "deleteOne c query w = (Inl e, w')"
  then show "w' = w"
    unfolding deleteOne_def
    by (auto split: sum.splits option.splits if_splits dest: writeCollectionData_failure)
qed

theorem failed_delete_writes_nothing_witness:
  "deleteById users_collection ''b2'' one_user = (Inl NoDocumentMatchesID, one_user)
   \<and> deleteOne users_collection (Obj [(''name'', Str ''B'')]) one_user = (Inl NoDocumentMatchesQuery, one_user)"
proof -
  have 1: "\<forall>d\<in>set [Obj [(''_id'', Str ''a1''), (''name'', Str ''A''), (''email'', Str ''a@x'')]]. hasId ''b2'' d = Inr False"
    by code_simp
  have 2: "\<forall>d\<in>set [Obj [(''_id'', Str ''a1''), (''name'', Str ''A''), (''email'', Str ''a@x'')]].
             matchesQuery d (Obj [(''name'', Str ''B'')]) = Inr False"
    by code_simp
  from failed_delete_writes_nothing [of users_collection one_user "''b2''" "Obj [(''name'', Str ''B'')]"]
    read_one_user 1 2
  show ?thesis by blast
qed

section \<open>Insertion\<close>

text \<open>
  Claim C5, as the code has it. The values of a unique field are compared by identity
  (\<open>Set.has\<close>), so a duplicate is detected when the value is a primitive one: when the
  new documents pass validation and the first of them that supplies, in a unique field, a
  value held by a stored document does so in field \<open>f\<close> (the first such field in
  schema order) with the primitive value \<open>v\<close>, the insertion fails with the
  duplicate-key error that names the collection, \<open>f\<close> and \<open>v\<close>, and the world is
  unchanged.
\<close>

theorem insert_rejects_value_held_by_stored_document:
  assumes valid: "\<forall>d\<in>set docs. is_object d \<and> validateDocument c d = Inr ()"
    and read: "readCollectionData c w = Inr (Arr existing)"
    and objects: "\<forall>item\<in>set existing. is_object item"
    and docs: "docs = earlier @ doc # later"
    and fields: "getUniqueFields (the_schema c) = before @ f # after"
    and earlier: "\<forall>d\<in>set earlier. \<forall>g\<in>set (getUniqueFields (the_schema c)).
                    \<forall>item\<in>set existing. \<not> holds item g (property d g)"
    and before: "\<forall>g\<in>set before. \<forall>item\<in>set existing. \<not> holds item g (property doc g)"
    and v: "property doc f = v" "v \<noteq> Undefined" "is_primitive v"
    and held: "item \<in> set existing" "property item f = v"
  shows "insertDocuments c stamps docs w = (Inl (DuplicateKeyError (getCollectionName c) f v), w)"
proof -
  let ?ufs = "getUniqueFields (the_schema c)"
  have val: "forEach (validateDocument c) docs = Inr ()"
    using valid by (simp add: forEach_Inr_iff)
  from populateUniqueFieldValues_has [OF objects, of ?ufs]
  obtain index where index: "populateUniqueFieldValues ?ufs (Arr existing) = Inr index"
    and h: "\<And>g u. has (index g) u \<longleftrightarrow> g \<in> set ?ufs \<and> (\<exists>item\<in>set existing. holds item g u)"
    by blast
  have doc_obj: "is_object doc" and earlier_obj: "\<forall>d\<in>set earlier. is_object d"
    using valid docs by simp_all
  have pass_earlier: "\<forall>d\<in>set earlier. forEach (checkDuplicate c index d) ?ufs = Inr ()"
    using earlier earlier_obj h by (auto simp: forEach_Inr_iff checkDuplicate_object)
  have pass_before: "\<forall>g\<in>set before. checkDuplicate c index doc g = Inr ()"
    using before doc_obj h by (auto simp: checkDuplicate_object)
  have "holds item f v"
    using v held by (simp add: holds_def strict_equals_same)
  then have "has (index f) v"
    using h [of f v] held(1) fields by auto
  then have fail: "checkDuplicate c index doc f = Inl (DuplicateKeyError (getCollectionName c) f v)"
    using v doc_obj by (simp add: checkDuplicate_object)
  have "forEach (checkDuplicate c index doc) (before @ f # after)
          = Inl (DuplicateKeyError (getCollectionName c) f v)"
    using forEach_first_failure [OF pass_before, of f "after"] fail by simp
  then have "forEach (\<lambda>d. forEach (checkDuplicate c index d) ?ufs) (earlier @ doc # later)
          = Inl (DuplicateKeyError (getCollectionName c) f v)"
    using forEach_first_failure [OF pass_earlier, of doc later] fields by simp
  then have dup: "forEach (\<lambda>d. forEach (checkDuplicate c index d) ?ufs) docs
          = Inl (DuplicateKeyError (getCollectionName c) f v)"
    by (simp only: docs)
  show ?thesis
    by (simp add: insertDocuments_def val read index dup)
qed

theorem insert_rejects_value_held_by_stored_document_witness:
  "insertDocuments users_collection stamps0 [Obj [(''name'', Str ''B''), (''email'', Str ''a@x'')]] one_user
     = (Inl (DuplicateKeyError ''User'' ''email'' (Str ''a@x'')), one_user)"
proof -
  let ?doc = "Obj [(''name'', Str ''B''), (''email'', Str ''a@x'')]"
  have valid: "\<forall>d\<in>set [?doc]. is_object d \<and> validateDocument users_collection d = Inr ()"
    by code_simp
  have objects: "\<forall>item\<in>set [existing_user]. is_object item"
    by code_simp
  have docs: "[?doc] = [] @ ?doc # []"
    by simp
  have fields: "getUniqueFields (the_schema users_collection) = [] @ ''email'' # []"
    by code_simp
  have v: "property ?doc ''email'' = Str ''a@x''" "Str ''a@x'' \<noteq> Undefined" "is_primitive (Str ''a@x'')"
    by code_simp+
  have held: "existing_user \<in> set [existing_user]" "property existing_user ''email'' = Str ''a@x''"
    by code_simp+
  have name: "getCollectionName users_collection = ''User''"
    by code_simp
  from insert_rejects_value_held_by_stored_document
    [OF valid one_user_read objects docs fields _ _ v held, of stamps0] name
  show ?thesis by simp
qed

text \<open>
  The claim as stated fails for a unique field that holds an array: an array equal to a
  stored one is a different object, the check does not see it, and the document is
  inserted.
\<close>

theorem insert_accepts_equal_array_counterexample:
  "getUniqueFields (the_schema tags_collection) = [''tags'']
   \<and> readCollectionData tags_collection one_post = Inr (Arr [Obj [(''_id'', Str ''p1''), (''tags'', Arr [Str ''a''])]])
   \<and> fst (insertDocuments tags_collection stamps0 [Obj [(''tags'', Arr [Str ''a''])]] one_post) = Inr ()
   \<and> readCollectionData tags_collection
        (snd (insertDocuments tags_collection stamps0 [Obj [(''tags'', Arr [Str ''a''])]] one_post))
      = Inr (Arr [Obj [(''_id'', Str ''p1''), (''tags'', Arr [Str ''a''])],
                  Obj [(''_id'', Str ''6553f1000123456789000008''), (''tags'', Arr [Str ''a'']),
                       (''createdAt'', Str ''2023-11-14T22:13:20.000Z''),
                       (''updatedAt'', Str ''2023-11-14T22:13:20.001Z'')]])"
  by code_simp




section \<open>Engine-managed fields\<close>





section \<open>Update\<close>



text \<open>
  The documents that the JSON adapter reads back hold their \<open>updatedAt\<close> as a string,
  which is never deeply equal to the new \<open>Date\<close>: with this adapter an update with
  an empty patch is written.
\<close>

lemma empty_patch_is_written_with_json_adapter:
  "updateById users_collection 1700000005000 ''a1'' (Obj []) one_full_user
     = (Inr (), one_full_user\<lparr>content := stored (Arr
          [Obj [(''_id'', Str ''a1''), (''name'', Str ''A''), (''email'', Str ''a@x''),
                (''createdAt'', Str ''2023-11-14T22:13:20.000Z''),
                (''updatedAt'', Date 1700000005000)]])\<rparr>)"
  by code_simp




text \<open>
  The set of the target's own values mixes all its unique fields. A new value for one
  unique field that equals the target's value in another unique field is therefore not
  checked either: the user name \<open>bob\<close>, held by the second account, is given to the first
  one, whose e-mail address is \<open>bob\<close>.
\<close>

lemma update_skips_check_of_value_of_another_field:
  "updateById accounts_collection 1700000005000 ''a1'' (Obj [(''username'', Str ''bob'')]) two_accounts
     = (Inr (), two_accounts\<lparr>content := stored (Arr
          [Obj [(''_id'', Str ''a1''), (''username'', Str ''bob''), (''email'', Str ''bob''),
                (''updatedAt'', Date 1700000005000)],
           Obj [(''_id'', Str ''a2''), (''username'', Str ''bob''), (''email'', Str ''cat'')]])\<rparr>)"
  by code_simp

end
